theory Spec2Isabelle
  imports Complex_Main
begin

section \<open>JavaScript values used by the music-theory engine\<close>

text \<open>
  The engine lives in three TypeScript files: the reharmonization editor
  (\<^verbatim>\<open>src/unnamed/part_009\<close>), the lyrics editor
  (\<^verbatim>\<open>src/frontend/components/lyrics-editor.tsx\<close>) and the prosody guard
  (\<^verbatim>\<open>src/api/src/modules/generate/guards/prosody.guard.ts\<close>).

  Strings are modelled as \<^typ>\<open>string\<close>: one \<^typ>\<open>char\<close> per code unit, which
  covers every text whose code units are below 256 (ASCII and Latin-1).  Chord durations
  and positions are JavaScript numbers, that is IEEE-754 doubles.  Their representation is
  not fixed here: chords are parametric in the type \<open>'n\<close> of numbers, and the one
  arithmetic operation that the engine performs on them, \<^verbatim>\<open>position - 0.5\<close>, is a
  parameter \<open>minusHalf\<close> of the functions that perform it.  Every theorem about these
  functions holds for every such operation, so also for the subtraction of doubles.
  \<^verbatim>\<open>Date.now()\<close> is an input of the model: every function that reads the clock
  takes the value read as an argument.
\<close>

datatype js_error = TypeError

subsection \<open>String and array primitives\<close>

text \<open>\<^verbatim>\<open>s.startsWith(t)\<close>, \<^verbatim>\<open>s.includes(t)\<close> and \<^verbatim>\<open>s.endsWith(t)\<close>.\<close>

fun startsWith :: "'a list \<Rightarrow> 'a list \<Rightarrow> bool" where
  "startsWith s [] = True"
| "startsWith [] (t # ts) = False"
| "startsWith (c # s) (t # ts) = (c = t \<and> startsWith s ts)"

fun str_includes :: "'a list \<Rightarrow> 'a list \<Rightarrow> bool" where
  "str_includes [] t = (t = [])"
| "str_includes (c # s) t = (startsWith (c # s) t \<or> str_includes s t)"

definition endsWith :: "'a list \<Rightarrow> 'a list \<Rightarrow> bool" where
  "endsWith s t = startsWith (rev s) (rev t)"

text \<open>
  \<^verbatim>\<open>xs.indexOf(x)\<close> and \<^verbatim>\<open>xs.findIndex(p)\<close>: the index of the first hit,
  or \<open>-1\<close>.
\<close>

fun findIndex :: "('a \<Rightarrow> bool) \<Rightarrow> 'a list \<Rightarrow> int" where
  "findIndex p [] = -1"
| "findIndex p (x # xs) =
     (if p x then 0
      else (let r = findIndex p xs in if r = -1 then -1 else r + 1))"

definition indexOf :: "'a list \<Rightarrow> 'a \<Rightarrow> int" where
  "indexOf xs x = findIndex (\<lambda>y. y = x) xs"

text \<open>The remainder operator \<^verbatim>\<open>a % b\<close> on integers: the sign follows the dividend.\<close>

definition js_rem :: "int \<Rightarrow> int \<Rightarrow> int" where
  "js_rem a b = sgn a * (\<bar>a\<bar> mod \<bar>b\<bar>)"

text \<open>\<^verbatim>\<open>String(n)\<close> for a non-negative integer: its decimal digits.\<close>

definition digitChar :: "nat \<Rightarrow> char" where
  "digitChar d = char_of (48 + d)"

fun showNat :: "nat \<Rightarrow> string" where
  "showNat n = (if n < 10 then [digitChar n] else showNat (n div 10) @ [digitChar (n mod 10)])"

declare showNat.simps [simp del]

text \<open>
  \<^verbatim>\<open>s.toUpperCase()\<close> and \<^verbatim>\<open>s.toLowerCase()\<close> on code units below 256: the
  ASCII letters and the Latin-1 letters \<open>0xC0..0xDE\<close> (without the multiplication sign
  \<open>0xD7\<close>) have a lower-case partner \<open>0x20\<close> above.  Upper-casing is only applied by the
  engine to the seven roman numerals, whose characters are ASCII letters and the degree
  sign.
\<close>

definition lowerChar :: "char \<Rightarrow> char" where
  "lowerChar c =
     (let n = of_char c :: nat in
      if (65 \<le> n \<and> n \<le> 90) \<or> (192 \<le> n \<and> n \<le> 222 \<and> n \<noteq> 215) then char_of (n + 32) else c)"

definition upperAscii :: "char \<Rightarrow> char" where
  "upperAscii c =
     (let n = of_char c :: nat in
      if 97 \<le> n \<and> n \<le> 122 then char_of (n - 32) else c)"

definition toLowerCase :: "string \<Rightarrow> string" where
  "toLowerCase s = map lowerChar s"

definition toUpperCase :: "string \<Rightarrow> string" where
  "toUpperCase s = map upperAscii s"

subsection \<open>Property lookup on an object literal\<close>

text \<open>
  The tables of the engine are object literals indexed by an arbitrary string,
  \<^verbatim>\<open>table[key]\<close>.  Such a lookup finds the table's own entry, or a member that every
  object inherits from \<^verbatim>\<open>Object.prototype\<close> (a function or an object, never a string
  or an array), or \<^verbatim>\<open>undefined\<close>.
\<close>

definition objectPrototypeKeys :: "string list" where
  "objectPrototypeKeys =
     [''constructor'', ''__proto__'', ''hasOwnProperty'', ''isPrototypeOf'',
      ''propertyIsEnumerable'', ''toLocaleString'', ''toString'', ''valueOf'',
      ''__defineGetter__'', ''__defineSetter__'', ''__lookupGetter__'', ''__lookupSetter__'']"

datatype 'a lookup = Own 'a | Inherited | Undefined

definition objGet :: "(string \<times> 'a) list \<Rightarrow> string \<Rightarrow> 'a lookup" where
  "objGet table k =
     (case map_of table k of
        Some v \<Rightarrow> Own v
      | None \<Rightarrow> if k \<in> set objectPrototypeKeys then Inherited else Undefined)"

section \<open>Reharmonization editor\<close>

subsection \<open>Tritone substitution of a root\<close>

definition noteNames :: "string list" where
  "noteNames = [''C'', ''C#'', ''D'', ''D#'', ''E'', ''F'', ''F#'', ''G'', ''G#'', ''A'', ''A#'', ''B'']"

text \<open>
  \<^verbatim>\<open>getTritoneSubstitution\<close>: \<^verbatim>\<open>notes[(notes.indexOf(root) + 6) % 12]\<close>.  The
  index is between 0 and 11 for every root, also for a root that is not in \<open>noteNames\<close> (the array \<^verbatim>\<open>notes\<close>)
  (\<open>indexOf\<close> gives \<open>-1\<close>, the index is 5).
\<close>

definition getTritoneSubstitution :: "string \<Rightarrow> string" where
  "getTritoneSubstitution rt =
     (let rootIndex = indexOf noteNames rt;
          tritoneIndex = js_rem (rootIndex + 6) 12
      in noteNames ! nat tritoneIndex)"

subsection \<open>Chords and suggestions\<close>

text \<open>
  The interface \<^verbatim>\<open>Chord\<close> and the entries of the two chord tables.  The fields
  \<^verbatim>\<open>root\<close>, \<^verbatim>\<open>function\<close> and \<^verbatim>\<open>id\<close> are named \<open>chord_root\<close>,
  \<open>chord_function\<close> and \<open>chord_id\<close> here.  The prosody guard reads only the root and
  the quality of a chord.  The confidence of a suggestion is a decimal literal of the
  source (such as \<^verbatim>\<open>0.8\<close>), kept as that decimal; nothing is computed from it.
\<close>

record ChordRQ =
  chord_root :: string
  quality :: string

record ChordEntry = ChordRQ +
  chord_function :: string

record 'n Chord = ChordEntry +
  chord_id :: string
  extensions :: "string list"
  roman :: string
  nashville :: string
  duration :: 'n
  position :: 'n

datatype complexity = Basic | Intermediate | Advanced

record 'n ReharmSuggestion =
  sugg_id :: string
  description :: string
  chords :: "'n Chord list"
  complexity :: complexity
  style :: string
  confidence :: rat

definition SECONDARY_DOMINANTS :: "(string \<times> ChordEntry) list" where
  "SECONDARY_DOMINANTS =
     [(''V/V'', \<lparr>chord_root = ''D'', quality = ''7'', chord_function = ''Secondary dominant to V''\<rparr>),
      (''V/IV'', \<lparr>chord_root = ''C'', quality = ''7'', chord_function = ''Secondary dominant to IV''\<rparr>),
      (''V/vi'', \<lparr>chord_root = ''E'', quality = ''7'', chord_function = ''Secondary dominant to vi''\<rparr>),
      (''V/ii'', \<lparr>chord_root = ''A'', quality = ''7'', chord_function = ''Secondary dominant to ii''\<rparr>),
      (''V/iii'', \<lparr>chord_root = ''B'', quality = ''7'', chord_function = ''Secondary dominant to iii''\<rparr>)]"

definition MODAL_INTERCHANGE :: "(string \<times> ChordEntry) list" where
  "MODAL_INTERCHANGE =
     [(''bVII'', \<lparr>chord_root = ''Bb'', quality = ''7'',
         chord_function = ''Modal interchange from parallel minor''\<rparr>),
      (''bVI'', \<lparr>chord_root = ''Ab'', quality = ''maj7'',
         chord_function = ''Modal interchange from parallel minor''\<rparr>),
      (''bIII'', \<lparr>chord_root = ''Eb'', quality = ''maj7'',
         chord_function = ''Modal interchange from parallel minor''\<rparr>),
      (''bII'', \<lparr>chord_root = ''Db'', quality = ''maj7'',
         chord_function = ''Modal interchange from parallel minor''\<rparr>),
      (''iv'', \<lparr>chord_root = ''Fm'', quality = ''m7'',
         chord_function = ''Modal interchange from parallel minor''\<rparr>)]"

subsection \<open>Scales, roman numerals and Nashville numbers\<close>

definition majorScales :: "(string \<times> string list) list" where
  "majorScales =
     [(''C'', [''C'', ''D'', ''E'', ''F'', ''G'', ''A'', ''B'']),
      (''G'', [''G'', ''A'', ''B'', ''C'', ''D'', ''E'', ''F#'']),
      (''D'', [''D'', ''E'', ''F#'', ''G'', ''A'', ''B'', ''C#'']),
      (''A'', [''A'', ''B'', ''C#'', ''D'', ''E'', ''F#'', ''G#'']),
      (''E'', [''E'', ''F#'', ''G#'', ''A'', ''B'', ''C#'', ''D#'']),
      (''B'', [''B'', ''C#'', ''D#'', ''E'', ''F#'', ''G#'', ''A#'']),
      (''F#'', [''F#'', ''G#'', ''A#'', ''B'', ''C#'', ''D#'', ''E#'']),
      (''F'', [''F'', ''G'', ''A'', ''Bb'', ''C'', ''D'', ''E'']),
      (''Bb'', [''Bb'', ''C'', ''D'', ''Eb'', ''F'', ''G'', ''A'']),
      (''Eb'', [''Eb'', ''F'', ''G'', ''Ab'', ''Bb'', ''C'', ''D'']),
      (''Ab'', [''Ab'', ''Bb'', ''C'', ''Db'', ''Eb'', ''F'', ''G'']),
      (''Db'', [''Db'', ''Eb'', ''F'', ''Gb'', ''Ab'', ''Bb'', ''C''])]"

text \<open>
  \<^verbatim>\<open>getScale\<close> (the same text in the reharmonization editor and in the prosody
  guard): \<^verbatim>\<open>majorScales[key] || majorScales['C']\<close>.  An own entry is an array; a
  member inherited from \<^verbatim>\<open>Object.prototype\<close> is truthy, so it is returned as it is,
  and it is not an array; for any other key the entry of \<open>C\<close> is returned.  There is no
  failing branch.
\<close>

datatype scale = ScaleArray "string list" | NotAnArray

definition getScale :: "string \<Rightarrow> scale" where
  "getScale key =
     (case objGet majorScales key of
        Own s \<Rightarrow> ScaleArray s
      | Inherited \<Rightarrow> NotAnArray
      | Undefined \<Rightarrow>
          (case objGet majorScales ''C'' of Own s \<Rightarrow> ScaleArray s | _ \<Rightarrow> NotAnArray))"

text \<open>The last numeral is \<open>vii\<close> followed by the degree sign (code unit \<open>0xB0\<close>).\<close>

definition numerals :: "string list" where
  "numerals = [''I'', ''ii'', ''iii'', ''IV'', ''V'', ''vi'', ''vii'' @ [char_of (176::nat)]]"

text \<open>
  \<^verbatim>\<open>getRomanNumeral\<close> and \<^verbatim>\<open>getNashvilleNumber\<close> call \<^verbatim>\<open>scale.indexOf\<close>, which
  raises a TypeError when the value is not an array.  Every array of \<open>majorScales\<close> has
  seven entries, so \<^verbatim>\<open>numerals[rootIndex]\<close> is in range.
\<close>

definition getRomanNumeral :: "string \<Rightarrow> string \<Rightarrow> string \<Rightarrow> js_error + string" where
  "getRomanNumeral rt q key =
     (case getScale key of
        NotAnArray \<Rightarrow> Inl TypeError
      | ScaleArray sc \<Rightarrow>
          (let rootIndex = indexOf sc rt in
           if rootIndex = -1 then Inr rt
           else
             (let numeral = numerals ! nat rootIndex in
              Inr (if str_includes q ''maj7'' then toUpperCase numeral @ ''maj7''
                   else if str_includes q ''7'' \<and> \<not> str_includes q ''maj7''
                     then toUpperCase numeral @ ''7''
                   else if str_includes q ''m'' then toLowerCase numeral
                   else numeral))))"

definition getNashvilleNumber :: "string \<Rightarrow> string \<Rightarrow> js_error + string" where
  "getNashvilleNumber rt key =
     (case getScale key of
        NotAnArray \<Rightarrow> Inl TypeError
      | ScaleArray sc \<Rightarrow>
          (let rootIndex = indexOf sc rt in
           Inr (if rootIndex \<noteq> -1 then showNat (nat (rootIndex + 1)) else rt)))"

subsection \<open>Finding the chord a strategy acts on\<close>

text \<open>
  \<^verbatim>\<open>chords.findIndex(chord => chord.function === target)\<close>, where \<open>target\<close> is
  \<^verbatim>\<open>targetMap[function_]\<close>.  A chord's function is a string, so it is never
  \<open>===\<close> to \<^verbatim>\<open>undefined\<close> or to an inherited member: the index is \<open>-1\<close> then.
\<close>

definition secondaryTargetMap :: "(string \<times> string) list" where
  "secondaryTargetMap =
     [(''V/V'', ''V''), (''V/IV'', ''IV''), (''V/vi'', ''vi''), (''V/ii'', ''ii''),
      (''V/iii'', ''iii'')]"

definition findTargetChordIndex :: "'n Chord list \<Rightarrow> string \<Rightarrow> int" where
  "findTargetChordIndex cs functionKey =
     (case objGet secondaryTargetMap functionKey of
        Own target \<Rightarrow> findIndex (\<lambda>chord. chord_function chord = target) cs
      | _ \<Rightarrow> -1)"

definition modalTargetMap :: "(string \<times> string) list" where
  "modalTargetMap =
     [(''bVII'', ''VII''), (''bVI'', ''VI''), (''bIII'', ''III''), (''bII'', ''II''),
      (''iv'', ''IV'')]"

definition findModalInterchangeTarget :: "'n Chord list \<Rightarrow> string \<Rightarrow> int" where
  "findModalInterchangeTarget cs functionKey =
     (case objGet modalTargetMap functionKey of
        Own target \<Rightarrow> findIndex (\<lambda>chord. chord_function chord = target) cs
      | _ \<Rightarrow> -1)"

subsection \<open>The four strategies\<close>

text \<open>\<^verbatim>\<open>newChords.splice(i, 0, c)\<close> on a copy of the array.\<close>

definition splice_insert :: "'a list \<Rightarrow> nat \<Rightarrow> 'a \<Rightarrow> 'a list" where
  "splice_insert xs i c = take i xs @ [c] @ drop i xs"

text \<open>
  \<^verbatim>\<open>generateSecondaryDominantProgression\<close>.  \<open>now\<close> is the value of
  \<^verbatim>\<open>Date.now()\<close> read for the new chord's id.  Reading a field of a table entry that
  does not exist would raise a TypeError; the target index is \<open>-1\<close> for such a key, so
  that branch is not reached.
\<close>

definition generateSecondaryDominantProgression ::
  "('n \<Rightarrow> 'n) \<Rightarrow> nat \<Rightarrow> string \<Rightarrow> 'n Chord list \<Rightarrow> string \<Rightarrow> js_error + 'n Chord list" where
  "generateSecondaryDominantProgression minusHalf now key originalChords functionKey =
     (let targetIndex = findTargetChordIndex originalChords functionKey in
      if targetIndex \<noteq> -1 then
        (case objGet SECONDARY_DOMINANTS functionKey of
           Own secondaryDominant \<Rightarrow>
             (case getRomanNumeral (chord_root secondaryDominant) (quality secondaryDominant) key of
                Inl e \<Rightarrow> Inl e
              | Inr rom \<Rightarrow>
                  (case getNashvilleNumber (chord_root secondaryDominant) key of
                     Inl e \<Rightarrow> Inl e
                   | Inr nash \<Rightarrow>
                       (let newChord =
                          \<lparr>chord_root = chord_root secondaryDominant,
                           quality = quality secondaryDominant,
                           chord_function = functionKey,
                           chord_id = ''secondary_'' @ showNat now,
                           extensions = [],
                           roman = rom,
                           nashville = nash,
                           duration = duration (originalChords ! nat targetIndex),
                           position = minusHalf (position (originalChords ! nat targetIndex))\<rparr>
                        in Inr (splice_insert originalChords (nat targetIndex) newChord))))
         | _ \<Rightarrow> Inl TypeError)
      else Inr originalChords)"

text \<open>\<^verbatim>\<open>generateModalInterchangeProgression\<close>: the target chord is replaced.\<close>

definition generateModalInterchangeProgression ::
  "nat \<Rightarrow> string \<Rightarrow> 'n Chord list \<Rightarrow> string \<Rightarrow> js_error + 'n Chord list" where
  "generateModalInterchangeProgression now key originalChords functionKey =
     (let targetIndex = findModalInterchangeTarget originalChords functionKey in
      if targetIndex \<noteq> -1 then
        (case objGet MODAL_INTERCHANGE functionKey of
           Own modalChord \<Rightarrow>
             (case getRomanNumeral (chord_root modalChord) (quality modalChord) key of
                Inl e \<Rightarrow> Inl e
              | Inr rom \<Rightarrow>
                  (case getNashvilleNumber (chord_root modalChord) key of
                     Inl e \<Rightarrow> Inl e
                   | Inr nash \<Rightarrow>
                       (let newChord =
                          \<lparr>chord_root = chord_root modalChord,
                           quality = quality modalChord,
                           chord_function = functionKey,
                           chord_id = ''modal_'' @ showNat now,
                           extensions = [],
                           roman = rom,
                           nashville = nash,
                           duration = duration (originalChords ! nat targetIndex),
                           position = position (originalChords ! nat targetIndex)\<rparr>
                        in Inr (originalChords[nat targetIndex := newChord]))))
         | _ \<Rightarrow> Inl TypeError)
      else Inr originalChords)"

text \<open>
  \<^verbatim>\<open>generateTritoneSubstitution\<close>: the callback of \<^verbatim>\<open>map\<close>, then the map itself.
  \<open>nowAt i\<close> is the value of \<^verbatim>\<open>Date.now()\<close> read while the chord at index \<open>i\<close> is
  mapped.  An exception in the callback ends the whole map.
\<close>

definition tritoneChord :: "nat \<Rightarrow> string \<Rightarrow> 'n Chord \<Rightarrow> js_error + 'n Chord" where
  "tritoneChord now key chord =
     (if str_includes (quality chord) ''7'' \<and> \<not> str_includes (quality chord) ''maj7'' then
        (let tritoneRoot = getTritoneSubstitution (chord_root chord) in
         case getRomanNumeral tritoneRoot (quality chord) key of
           Inl e \<Rightarrow> Inl e
         | Inr rom \<Rightarrow>
             (case getNashvilleNumber tritoneRoot key of
                Inl e \<Rightarrow> Inl e
              | Inr nash \<Rightarrow>
                  Inr (chord\<lparr>chord_id := ''tritone_'' @ showNat now,
                             chord_root := tritoneRoot,
                             roman := rom,
                             nashville := nash\<rparr>)))
      else Inr chord)"

fun tritoneFrom :: "(nat \<Rightarrow> nat) \<Rightarrow> string \<Rightarrow> nat \<Rightarrow> 'n Chord list \<Rightarrow> js_error + 'n Chord list" where
  "tritoneFrom nowAt key i [] = Inr []"
| "tritoneFrom nowAt key i (chord # rest) =
     (case tritoneChord (nowAt i) key chord of
        Inl e \<Rightarrow> Inl e
      | Inr c \<Rightarrow>
          (case tritoneFrom nowAt key (Suc i) rest of
             Inl e \<Rightarrow> Inl e
           | Inr cs \<Rightarrow> Inr (c # cs)))"

definition generateTritoneSubstitution ::
  "(nat \<Rightarrow> nat) \<Rightarrow> string \<Rightarrow> 'n Chord list \<Rightarrow> js_error + 'n Chord list" where
  "generateTritoneSubstitution nowAt key originalChords = tritoneFrom nowAt key 0 originalChords"

definition getExtendedHarmony :: "string \<Rightarrow> string list" where
  "getExtendedHarmony q =
     (if str_includes q ''maj7'' then [''9'', ''13'']
      else if str_includes q ''m7'' then [''9'', ''11'']
      else if str_includes q ''7'' then [''9'', ''11'', ''13'']
      else [])"

definition generateExtendedHarmony :: "'n Chord list \<Rightarrow> 'n Chord list" where
  "generateExtendedHarmony originalChords =
     map (\<lambda>chord. chord\<lparr>extensions := getExtendedHarmony (quality chord)\<rparr>) originalChords"

text \<open>
  The extension rule as the specification words it, by quality: \<open>maj7\<close> gets
  \<open>9, 13\<close>, \<open>m7\<close> gets \<open>9, 11\<close>, the plain \<open>7\<close> gets \<open>9, 11, 13\<close>, and every other
  quality gets none.
\<close>

definition specExtendedHarmony :: "string \<Rightarrow> string list" where
  "specExtendedHarmony q =
     (if q = ''maj7'' then [''9'', ''13'']
      else if q = ''m7'' then [''9'', ''11'']
      else if q = ''7'' then [''9'', ''11'', ''13'']
      else [])"

subsection \<open>The suggestion generator\<close>

text \<open>
  \<^verbatim>\<open>generateSuggestions\<close> reads the component's current chords and key, builds one
  suggestion per entry of each table, then the tritone and the extended-harmony
  suggestion, and stores the list.  The clock values read on the way are collected in a
  record: one for each table key (read only when a target chord is found) and one for
  each index of the tritone map.  A \<^verbatim>\<open>forEach\<close> whose callback raises is left at once.
\<close>

record ClockReadings =
  secondary_now :: "string \<Rightarrow> nat"
  modal_now :: "string \<Rightarrow> nat"
  tritone_now :: "nat \<Rightarrow> nat"

fun mapE :: "('a \<Rightarrow> 'e + 'b) \<Rightarrow> 'a list \<Rightarrow> 'e + 'b list" where
  "mapE f [] = Inr []"
| "mapE f (x # xs) =
     (case f x of
        Inl e \<Rightarrow> Inl e
      | Inr y \<Rightarrow> (case mapE f xs of Inl e \<Rightarrow> Inl e | Inr ys \<Rightarrow> Inr (y # ys)))"

definition secondarySuggestion ::
  "('n \<Rightarrow> 'n) \<Rightarrow> ClockReadings \<Rightarrow> string \<Rightarrow> 'n Chord list \<Rightarrow> string \<times> ChordEntry
   \<Rightarrow> js_error + 'n ReharmSuggestion" where
  "secondarySuggestion minusHalf clk key currentChords entry =
     (case entry of (functionKey, chord) \<Rightarrow>
        (case generateSecondaryDominantProgression minusHalf (secondary_now clk functionKey) key
                currentChords functionKey of
           Inl e \<Rightarrow> Inl e
         | Inr cs \<Rightarrow>
             Inr \<lparr>sugg_id = ''secondary_'' @ functionKey,
                  description = ''Add '' @ functionKey @ '' ('' @ chord_root chord @ quality chord @ '')'',
                  chords = cs,
                  complexity = Intermediate,
                  style = ''Jazz'',
                  confidence = 8 / 10\<rparr>))"

definition modalSuggestion ::
  "ClockReadings \<Rightarrow> string \<Rightarrow> 'n Chord list \<Rightarrow> string \<times> ChordEntry \<Rightarrow> js_error + 'n ReharmSuggestion" where
  "modalSuggestion clk key currentChords entry =
     (case entry of (functionKey, chord) \<Rightarrow>
        (case generateModalInterchangeProgression (modal_now clk functionKey) key
                currentChords functionKey of
           Inl e \<Rightarrow> Inl e
         | Inr cs \<Rightarrow>
             Inr \<lparr>sugg_id = ''modal_'' @ functionKey,
                  description = ''Add '' @ functionKey @ '' ('' @ chord_root chord @ quality chord @ '')'',
                  chords = cs,
                  complexity = Advanced,
                  style = ''Rock/Pop'',
                  confidence = 7 / 10\<rparr>))"

definition tritoneSuggestion :: "'n Chord list \<Rightarrow> 'n ReharmSuggestion" where
  "tritoneSuggestion cs =
     \<lparr>sugg_id = ''tritone_sub'',
      description = ''Tritone substitution for dominant chords'',
      chords = cs,
      complexity = Advanced,
      style = ''Jazz'',
      confidence = 6 / 10\<rparr>"

definition extendedSuggestion :: "'n Chord list \<Rightarrow> 'n ReharmSuggestion" where
  "extendedSuggestion cs =
     \<lparr>sugg_id = ''extended_harmony'',
      description = ''Add extended harmonies (9ths, 11ths, 13ths)'',
      chords = cs,
      complexity = Intermediate,
      style = ''Jazz/Fusion'',
      confidence = 9 / 10\<rparr>"

definition generateSuggestions ::
  "('n \<Rightarrow> 'n) \<Rightarrow> ClockReadings \<Rightarrow> string \<Rightarrow> 'n Chord list
   \<Rightarrow> js_error + 'n ReharmSuggestion list" where
  "generateSuggestions minusHalf clk key currentChords =
     (case mapE (secondarySuggestion minusHalf clk key currentChords) SECONDARY_DOMINANTS of
        Inl e \<Rightarrow> Inl e
      | Inr secondary \<Rightarrow>
          (case mapE (modalSuggestion clk key currentChords) MODAL_INTERCHANGE of
             Inl e \<Rightarrow> Inl e
           | Inr modal \<Rightarrow>
               (case generateTritoneSubstitution (tritone_now clk) key currentChords of
                  Inl e \<Rightarrow> Inl e
                | Inr tritone \<Rightarrow>
                    Inr (secondary @ modal
                         @ [tritoneSuggestion tritone,
                            extendedSuggestion (generateExtendedHarmony currentChords)]))))"

section \<open>Lyrics editor\<close>

subsection \<open>Syllable counting\<close>

text \<open>
  \<^verbatim>\<open>countSyllables\<close> (the same text in the lyrics editor and in the prosody guard).
  \<^verbatim>\<open>word.match(/[aeiouy]/gi)\<close> is the array of the single vowel characters of the
  word, in either case, or \<^verbatim>\<open>null\<close> when there is none;
  \<^verbatim>\<open>word.match(/[aeiou]{2,}/)\<close> is truthy when two lower-case vowels other than
  \<open>y\<close> are adjacent.
\<close>

definition isVowelAnyCase :: "char \<Rightarrow> bool" where
  "isVowelAnyCase c = (c \<in> set ''aeiouyAEIOUY'')"

definition isLowerVowel :: "char \<Rightarrow> bool" where
  "isLowerVowel c = (c \<in> set ''aeiou'')"

fun hasVowelPair :: "string \<Rightarrow> bool" where
  "hasVowelPair (a # b # rest) = ((isLowerVowel a \<and> isLowerVowel b) \<or> hasVowelPair (b # rest))"
| "hasVowelPair _ = False"

definition countSyllables :: "string \<Rightarrow> int" where
  "countSyllables word =
     (let vowels = filter isVowelAnyCase word in
      if vowels = [] then 1
      else
        (let count0 = int (length vowels);
             count1 = (if endsWith word ''e'' \<and> count0 > 1 then count0 - 1 else count0);
             count2 = (if hasVowelPair word then count1 - 1 else count1)
         in max 1 count2))"

text \<open>
  The counting rule as the specification words it: every maximal run of characters of
  \<open>[aeiouy]\<close> counts once, one is taken off when the word ends in \<open>e\<close> and the count is
  above one, and the result is at least one.
\<close>

fun vowelRuns :: "bool \<Rightarrow> string \<Rightarrow> int" where
  "vowelRuns inRun [] = 0"
| "vowelRuns inRun (c # cs) =
     (if c \<in> set ''aeiouy'' then (if inRun then 0 else 1) + vowelRuns True cs
      else vowelRuns False cs)"

definition specSyllables :: "string \<Rightarrow> int" where
  "specSyllables word =
     (let runs = vowelRuns False word;
          count1 = (if endsWith word ''e'' \<and> runs > 1 then runs - 1 else runs)
      in max 1 count1)"

subsection \<open>Rhyme groups\<close>

datatype strength = Perfect | Slant | Assonance

record RhymeGroup =
  pattern :: string
  words :: "string list"
  strength :: strength

text \<open>\<^verbatim>\<open>getRhymePattern\<close>: the word itself up to two characters, else \<^verbatim>\<open>word.slice(-2)\<close>.\<close>

definition getRhymePattern :: "string \<Rightarrow> string" where
  "getRhymePattern word = (if length word \<le> 2 then word else drop (length word - 2) word)"

text \<open>
  \<^verbatim>\<open>text.split(sep)\<close> for a one-character separator, \<^verbatim>\<open>line.trim()\<close> (the white
  space and line terminators below code unit 256) and \<^verbatim>\<open>replace(/[^\w]/g, '')\<close>.
  A split never yields the empty array, so \<^verbatim>\<open>words[words.length - 1]\<close> is always a
  string (\<open>last\<close> is applied to a non-empty list).
\<close>

fun splitOn :: "char \<Rightarrow> string \<Rightarrow> string list" where
  "splitOn sep [] = [[]]"
| "splitOn sep (c # cs) =
     (if c = sep then [] # splitOn sep cs
      else (case splitOn sep cs of
              [] \<Rightarrow> [[c]]
            | w # ws \<Rightarrow> (c # w) # ws))"

definition isWhiteSpace :: "char \<Rightarrow> bool" where
  "isWhiteSpace c = ((of_char c :: nat) \<in> {9, 10, 11, 12, 13, 32, 160})"

definition trim :: "string \<Rightarrow> string" where
  "trim s = rev (dropWhile isWhiteSpace (rev (dropWhile isWhiteSpace s)))"

definition isWordChar :: "char \<Rightarrow> bool" where
  "isWordChar c =
     (let n = of_char c :: nat in
      (48 \<le> n \<and> n \<le> 57) \<or> (65 \<le> n \<and> n \<le> 90) \<or> n = 95 \<or> (97 \<le> n \<and> n \<le> 122))"

definition endWord :: "string \<Rightarrow> string" where
  "endWord line = filter isWordChar (toLowerCase (last (splitOn (CHR '' '') (trim line))))"

definition endWords :: "string \<Rightarrow> string list" where
  "endWords text = map endWord (filter (\<lambda>line. trim line \<noteq> []) (splitOn (CHR 0x0A) text))"

text \<open>
  The body of the \<^verbatim>\<open>forEach\<close> of \<^verbatim>\<open>analyzeRhymes\<close>, on the pair of the arrays
  \<open>groups\<close> and \<open>patterns\<close>: a new pattern opens a group, a known one pushes the word
  onto the first group that has the pattern.
\<close>

fun pushWord :: "string \<Rightarrow> string \<Rightarrow> RhymeGroup list \<Rightarrow> RhymeGroup list" where
  "pushWord p word [] = []"
| "pushWord p word (g # gs) =
     (if pattern g = p then g\<lparr>words := words g @ [word]\<rparr> # gs else g # pushWord p word gs)"

definition rhymeStep :: "RhymeGroup list \<times> string list \<Rightarrow> string \<Rightarrow> RhymeGroup list \<times> string list" where
  "rhymeStep st word =
     (case st of (groups, patterns) \<Rightarrow>
        (let p = getRhymePattern word in
         if p \<notin> set patterns then
           (groups @ [\<lparr>pattern = p, words = [word], strength = Perfect\<rparr>], patterns @ [p])
         else (pushWord p word groups, patterns)))"

definition rhymeGroups :: "string list \<Rightarrow> RhymeGroup list" where
  "rhymeGroups ws = fst (foldl rhymeStep ([], []) ws)"

definition analyzeRhymes :: "string \<Rightarrow> RhymeGroup list" where
  "analyzeRhymes text = filter (\<lambda>g. length (words g) > 1) (rhymeGroups (endWords text))"

section \<open>Prosody guard\<close>

datatype warning_type = Prosody_clash | Non_diatonic | Voice_leading | Rhythm_conflict

datatype severity = Low | Medium | High

record ProsodyWarning =
  warning_type :: warning_type
  severity :: severity
  message :: string
  warning_position :: nat
  suggestion :: "string option"

text \<open>Of a project, the guard reads the nullable column \<^verbatim>\<open>key\<close>.\<close>

record Project =
  project_key :: "string option"

text \<open>
  \<^verbatim>\<open>getSecondaryDominantResolution\<close>: \<^verbatim>\<open>resolutions[dominantRoot] || dominantRoot\<close>.
  The result is a string, or an inherited member that is no string (\<open>None\<close>).
\<close>

definition resolutions :: "(string \<times> string) list" where
  "resolutions = [(''D'', ''G''), (''A'', ''D''), (''E'', ''A''), (''B'', ''E'')]"

definition getSecondaryDominantResolution :: "string \<Rightarrow> string option" where
  "getSecondaryDominantResolution dominantRoot =
     (case objGet resolutions dominantRoot of
        Own r \<Rightarrow> Some (if r = [] then dominantRoot else r)
      | Inherited \<Rightarrow> None
      | Undefined \<Rightarrow> Some dominantRoot)"

text \<open>\<^verbatim>\<open>isSecondaryDominant\<close>: \<^verbatim>\<open>allChords[index + 1]\<close> is undefined past the end.\<close>

definition isSecondaryDominant :: "'a ChordRQ_scheme \<Rightarrow> 'a ChordRQ_scheme list \<Rightarrow> nat \<Rightarrow> bool" where
  "isSecondaryDominant chord allChords index =
     (if \<not> str_includes (quality chord) ''7'' \<or> str_includes (quality chord) ''maj7'' then False
      else if index + 1 < length allChords then
        getSecondaryDominantResolution (chord_root chord)
          = Some (chord_root (allChords ! (index + 1)))
      else False)"

definition modalChords :: "(string \<times> string list) list" where
  "modalChords =
     [(''C'', [''Bb'', ''Ab'', ''Eb'', ''Db'', ''Fm'']),
      (''G'', [''F'', ''Eb'', ''Bb'', ''Ab'', ''Cm'']),
      (''D'', [''C'', ''Bb'', ''F'', ''Eb'', ''Gm'']),
      (''A'', [''G'', ''F'', ''C'', ''Bb'', ''Dm'']),
      (''E'', [''D'', ''C'', ''G'', ''F'', ''Am'']),
      (''B'', [''A'', ''G'', ''D'', ''C'', ''Em''])]"

text \<open>
  \<^verbatim>\<open>isModalInterchange\<close>: \<^verbatim>\<open>(modalChords[key] || []).includes(chord.root)\<close>; an
  inherited member has no \<^verbatim>\<open>includes\<close>.
\<close>

definition isModalInterchange :: "'a ChordRQ_scheme \<Rightarrow> string \<Rightarrow> js_error + bool" where
  "isModalInterchange chord key =
     (case objGet modalChords key of
        Own keyModalChords \<Rightarrow> Inr (chord_root chord \<in> set keyModalChords)
      | Inherited \<Rightarrow> Inl TypeError
      | Undefined \<Rightarrow> Inr False)"

text \<open>The three warnings that the callback of \<^verbatim>\<open>checkNonDiatonicWarnings\<close> can push.\<close>

definition nonDiatonicWarning :: "string \<Rightarrow> 'a ChordRQ_scheme \<Rightarrow> nat \<Rightarrow> ProsodyWarning" where
  "nonDiatonicWarning key chord index =
     \<lparr>warning_type = Non_diatonic, severity = Medium,
      message = ''Non-diatonic chord: '' @ chord_root chord @ quality chord,
      warning_position = index,
      suggestion = Some (''Consider using a diatonic chord from '' @ key @ '' major scale'')\<rparr>"

definition secondaryDominantNote :: "'a ChordRQ_scheme \<Rightarrow> nat \<Rightarrow> ProsodyWarning" where
  "secondaryDominantNote chord index =
     \<lparr>warning_type = Non_diatonic, severity = Low,
      message = ''Secondary dominant detected: '' @ chord_root chord @ quality chord,
      warning_position = index,
      suggestion = Some ''This is a common jazz technique - verify intentional use''\<rparr>"

definition modalInterchangeNote :: "'a ChordRQ_scheme \<Rightarrow> nat \<Rightarrow> ProsodyWarning" where
  "modalInterchangeNote chord index =
     \<lparr>warning_type = Non_diatonic, severity = Low,
      message = ''Modal interchange detected: '' @ chord_root chord @ quality chord,
      warning_position = index,
      suggestion = Some ''This borrows from parallel minor - verify intentional use''\<rparr>"

text \<open>
  The callback: three independent \<^verbatim>\<open>if\<close> statements, each pushing onto
  \<open>warnings\<close>.  \<^verbatim>\<open>scale.includes\<close> raises when the scale is not an array.
\<close>

definition chordWarnings ::
  "string \<Rightarrow> scale \<Rightarrow> 'a ChordRQ_scheme list \<Rightarrow> nat \<Rightarrow> 'a ChordRQ_scheme \<Rightarrow> js_error + ProsodyWarning list" where
  "chordWarnings key sc allChords index chord =
     (case sc of
        NotAnArray \<Rightarrow> Inl TypeError
      | ScaleArray notesOfScale \<Rightarrow>
          (let pushed1 = (if chord_root chord \<notin> set notesOfScale
                          then [nonDiatonicWarning key chord index] else []);
               pushed2 = (if isSecondaryDominant chord allChords index
                          then [secondaryDominantNote chord index] else [])
           in case isModalInterchange chord key of
                Inl e \<Rightarrow> Inl e
              | Inr modal \<Rightarrow>
                  Inr (pushed1 @ pushed2
                       @ (if modal then [modalInterchangeNote chord index] else []))))"

fun forEachChord ::
  "(nat \<Rightarrow> 'c \<Rightarrow> js_error + ProsodyWarning list) \<Rightarrow> nat \<Rightarrow> 'c list \<Rightarrow> ProsodyWarning list
   \<Rightarrow> js_error + ProsodyWarning list" where
  "forEachChord f index [] warnings = Inr warnings"
| "forEachChord f index (chord # rest) warnings =
     (case f index chord of
        Inl e \<Rightarrow> Inl e
      | Inr pushed \<Rightarrow> forEachChord f (Suc index) rest (warnings @ pushed))"

text \<open>
  \<^verbatim>\<open>checkNonDiatonicWarnings\<close>.  The repository is a function from project ids to
  projects; a missing project, a null key and an empty key give the empty list.
\<close>

definition checkNonDiatonicWarnings ::
  "(string \<Rightarrow> Project option) \<Rightarrow> string \<Rightarrow> 'a ChordRQ_scheme list \<Rightarrow> js_error + ProsodyWarning list" where
  "checkNonDiatonicWarnings projectRepository projectId cs =
     (case projectRepository projectId of
        None \<Rightarrow> Inr []
      | Some project \<Rightarrow>
          (case project_key project of
             None \<Rightarrow> Inr []
           | Some key \<Rightarrow>
               if key = [] then Inr []
               else forEachChord (chordWarnings key (getScale key) cs) 0 cs []))"

section \<open>Example inputs\<close>

text \<open>
  A clock that shows the same time at every read of one invocation, a chord with the
  given root, quality, function tag, duration and position, a repository whose every
  project has the given key, and a repository that holds one project only.  The example chords have small dyadic durations and
  positions (such as 4 and 3.5), which doubles represent exactly and on which the
  subtraction of 0.5 is exact; for them the numbers are written as rationals and
  \<open>minusHalf\<close> is the exact subtraction.
\<close>

definition exactMinusHalf :: "rat \<Rightarrow> rat" where
  "exactMinusHalf x = x - 1 / 2"

definition constantClock :: "nat \<Rightarrow> ClockReadings" where
  "constantClock t =
     \<lparr>secondary_now = (\<lambda>functionKey. t), modal_now = (\<lambda>functionKey. t),
      tritone_now = (\<lambda>index. t)\<rparr>"

definition chordOf :: "string \<Rightarrow> string \<Rightarrow> string \<Rightarrow> rat \<Rightarrow> rat \<Rightarrow> rat Chord" where
  "chordOf rt q f d p =
     \<lparr>chord_root = rt, quality = q, chord_function = f, chord_id = ''chord'' , extensions = [],
      roman = [], nashville = [], duration = d, position = p\<rparr>"


definition projectsWithKey :: "string \<Rightarrow> string \<Rightarrow> Project option" where
  "projectsWithKey key projectId = Some \<lparr>project_key = Some key\<rparr>"

section \<open>Suggestions up to the ids of their chords\<close>



section \<open>Properties\<close>

subsection \<open>Tritone substitution\<close>

lemma tritone_of_C: "getTritoneSubstitution ''C'' = ''F#''"
  by (simp add: getTritoneSubstitution_def indexOf_def noteNames_def js_rem_def)

lemma tritone_involution_on_noteNames:
  "\<forall>x \<in> set noteNames. getTritoneSubstitution (getTritoneSubstitution x) = x"
  unfolding noteNames_def list.set ball_simps
  by (simp add: getTritoneSubstitution_def indexOf_def noteNames_def js_rem_def)

text \<open>
  Claim C7.  The mapping sends \<open>C\<close> to \<open>F#\<close>, but it is not an involution on every
  root: the flat spellings that the engine's own scale and modal-interchange tables
  use are not in \<open>noteNames\<close> (the array \<^verbatim>\<open>notes\<close>).  The root \<open>Bb\<close> is sent to \<open>F\<close> (which is not six
  semitones away), and \<open>F\<close> is sent to \<open>B\<close>, so applying the mapping twice to \<open>Bb\<close>
  gives \<open>B\<close>.
\<close>

theorem tritone_flat_root_not_involutive:
  "getTritoneSubstitution ''C'' = ''F#''
   \<and> getTritoneSubstitution ''Bb'' = ''F''
   \<and> getTritoneSubstitution (getTritoneSubstitution ''Bb'') = ''B''
   \<and> getTritoneSubstitution (getTritoneSubstitution ''Bb'') \<noteq> ''Bb''"
  by (simp add: getTritoneSubstitution_def indexOf_def noteNames_def js_rem_def)


subsection \<open>The generator on an empty progression\<close>

lemma findIndex_Nil_tables [simp]:
  "findTargetChordIndex [] f = -1" "findModalInterchangeTarget [] f = -1"
  by (simp_all add: findTargetChordIndex_def findModalInterchangeTarget_def split: lookup.splits)

lemma secondary_empty: "generateSecondaryDominantProgression minusHalf now key [] f = Inr []"
  by (simp add: generateSecondaryDominantProgression_def)

lemma modal_empty: "generateModalInterchangeProgression now key [] f = Inr []"
  by (simp add: generateModalInterchangeProgression_def)

text \<open>
  Claim C1, as amended.  On an empty progression, for every key and every clock, the
  generator does not raise and returns its twelve suggestions (five secondary
  dominants, five modal interchanges, the tritone substitution and the extended
  harmony), each with an empty resulting progression.
\<close>

theorem generateSuggestions_empty_progression:
  "\<exists>ss. generateSuggestions minusHalf clk key [] = Inr ss
     \<and> map sugg_id ss =
         [''secondary_V/V'', ''secondary_V/IV'', ''secondary_V/vi'', ''secondary_V/ii'',
          ''secondary_V/iii'', ''modal_bVII'', ''modal_bVI'', ''modal_bIII'', ''modal_bII'',
          ''modal_iv'', ''tritone_sub'', ''extended_harmony'']
     \<and> map chords ss = replicate 12 []"
  by (simp add: generateSuggestions_def secondarySuggestion_def modalSuggestion_def
      secondary_empty modal_empty SECONDARY_DOMINANTS_def MODAL_INTERCHANGE_def
      generateTritoneSubstitution_def generateExtendedHarmony_def tritoneSuggestion_def
      extendedSuggestion_def numeral_eq_Suc)

text \<open>
  Claim C1, as stated, fails: in key \<open>C\<close> the suggestion list for the empty progression
  is not empty.
\<close>

theorem generateSuggestions_empty_not_nil:
  "generateSuggestions exactMinusHalf (constantClock 0) ''C'' [] \<noteq> Inr []"
  by (simp add: generateSuggestions_def secondarySuggestion_def modalSuggestion_def
      secondary_empty modal_empty SECONDARY_DOMINANTS_def MODAL_INTERCHANGE_def
      generateTritoneSubstitution_def)

subsection \<open>Scale lookup for an unknown key\<close>

lemma majorScales_C:
  "objGet majorScales ''C'' = Own [''C'', ''D'', ''E'', ''F'', ''G'', ''A'', ''B'']"
  by (simp add: objGet_def majorScales_def)

text \<open>
  Claim C3, as amended.  For a key that is not in the table of major keys the lookup
  does not fail: it returns the scale of C major, except when the key is the name of a
  member of \<^verbatim>\<open>Object.prototype\<close>, where it returns that member, which is no array.
\<close>

theorem getScale_unknown_key:
  "map_of majorScales key = None \<Longrightarrow>
   getScale key =
     (if key \<in> set objectPrototypeKeys then NotAnArray
      else ScaleArray [''C'', ''D'', ''E'', ''F'', ''G'', ''A'', ''B''])"
  by (simp add: getScale_def objGet_def majorScales_C [unfolded objGet_def])

theorem getScale_unknown_key_witness:
  "map_of majorScales ''Cm'' = None
   \<and> getScale ''Cm'' = ScaleArray [''C'', ''D'', ''E'', ''F'', ''G'', ''A'', ''B'']"
  using getScale_unknown_key [of "''Cm''"]
  by (simp add: majorScales_def objectPrototypeKeys_def)

text \<open>
  Claim C3, as stated, fails: \<open>H\<close> is not a key of the table, and the lookup returns
  the scale of C major for it.
\<close>

theorem getScale_H_is_C_major:
  "map_of majorScales ''H'' = None
   \<and> getScale ''H'' = ScaleArray [''C'', ''D'', ''E'', ''F'', ''G'', ''A'', ''B'']"
  by (simp add: getScale_def objGet_def majorScales_def objectPrototypeKeys_def)

subsection \<open>Syllable counting\<close>

lemma endsWith_e: "endsWith w ''e'' \<longleftrightarrow> (w \<noteq> [] \<and> last w = CHR ''e'')"
proof (cases "rev w")
  case Nil
  then show ?thesis by (simp add: endsWith_def)
next
  case (Cons c cs)
  then have "w = rev cs @ [c]" by (metis rev.simps(2) rev_rev_ident)
  then show ?thesis by (simp add: endsWith_def)
qed

lemma hasVowelPair_iff:
  "hasVowelPair w \<longleftrightarrow> (\<exists>i. Suc i < length w \<and> isLowerVowel (w ! i) \<and> isLowerVowel (w ! Suc i))"
proof (induction w rule: hasVowelPair.induct)
  case (1 a b rest)
  show ?case
  proof
    assume "hasVowelPair (a # b # rest)"
    then consider "isLowerVowel a \<and> isLowerVowel b" | "hasVowelPair (b # rest)" by auto
    then show "\<exists>i. Suc i < length (a # b # rest) \<and> isLowerVowel ((a # b # rest) ! i)
        \<and> isLowerVowel ((a # b # rest) ! Suc i)"
    proof cases
      case 1
      then have "Suc 0 < length (a # b # rest) \<and> isLowerVowel ((a # b # rest) ! 0)
        \<and> isLowerVowel ((a # b # rest) ! Suc 0)" by simp
      then show ?thesis by blast
    next
      case 2
      with "1.IH" obtain i where "Suc i < length (b # rest)" "isLowerVowel ((b # rest) ! i)"
        "isLowerVowel ((b # rest) ! Suc i)" by blast
      then have "Suc (Suc i) < length (a # b # rest) \<and> isLowerVowel ((a # b # rest) ! Suc i)
        \<and> isLowerVowel ((a # b # rest) ! Suc (Suc i))" by simp
      then show ?thesis by blast
    qed
  next
    assume "\<exists>i. Suc i < length (a # b # rest) \<and> isLowerVowel ((a # b # rest) ! i)
        \<and> isLowerVowel ((a # b # rest) ! Suc i)"
    then obtain i where i: "Suc i < length (a # b # rest)" "isLowerVowel ((a # b # rest) ! i)"
        "isLowerVowel ((a # b # rest) ! Suc i)" by blast
    show "hasVowelPair (a # b # rest)"
    proof (cases i)
      case 0
      with i show ?thesis by simp
    next
      case (Suc k)
      with i have "Suc k < length (b # rest) \<and> isLowerVowel ((b # rest) ! k)
        \<and> isLowerVowel ((b # rest) ! Suc k)" by simp
      then have "hasVowelPair (b # rest)" using "1.IH" by blast
      then show ?thesis by simp
    qed
  qed
qed simp_all

text \<open>
  Claim C5, as amended.  The counter counts the vowel characters of the word one by one
  (\<open>a e i o u y\<close> in either case), not the runs of vowels.  From that number it takes
  one off when the word ends in \<open>e\<close> and the number exceeds one, and one more when two
  lower-case vowels other than \<open>y\<close> stand next to each other somewhere in the word.  A
  word without a vowel counts one, and the result is never less than one.
\<close>

theorem countSyllables_counts_vowel_characters:
  "countSyllables w =
     (let n = int (length (filter isVowelAnyCase w));
          finalE = (w \<noteq> [] \<and> last w = CHR ''e'' \<and> n > 1);
          pair = (\<exists>i. Suc i < length w \<and> isLowerVowel (w ! i) \<and> isLowerVowel (w ! Suc i))
      in if n = 0 then 1
         else max 1 (n - (if finalE then 1 else 0) - (if pair then 1 else 0)))
   \<and> 1 \<le> countSyllables w"
  by (simp add: countSyllables_def Let_def endsWith_e hasVowelPair_iff [symmetric])

theorem countSyllables_counts_vowel_characters_witness:
  "countSyllables ''rhythm'' = 1 \<and> countSyllables ''alone'' = 2
   \<and> 1 \<le> countSyllables ''beautiful''"
  using countSyllables_counts_vowel_characters [of "''beautiful''"]
  by (simp add: countSyllables_def isVowelAnyCase_def endsWith_def isLowerVowel_def)

text \<open>
  Claim C5, as stated, fails: \<open>beautiful\<close> has the three vowel runs \<open>eau\<close>, \<open>i\<close> and
  \<open>u\<close> and does not end in \<open>e\<close>, so the stated rule gives 3; the counter returns 4.
\<close>

theorem countSyllables_beautiful:
  "countSyllables ''beautiful'' = 4 \<and> specSyllables ''beautiful'' = 3"
  by (simp add: countSyllables_def specSyllables_def isVowelAnyCase_def endsWith_def
      isLowerVowel_def)

subsection \<open>Extended harmony\<close>

lemma startsWith_iff: "startsWith s t \<longleftrightarrow> (\<exists>r. s = t @ r)"
  by (induction s t rule: startsWith.induct) auto

lemma str_includes_iff: "str_includes s t \<longleftrightarrow> (\<exists>p r. s = p @ t @ r)"
proof (induction s)
  case Nil
  show ?case by auto
next
  case (Cons c s)
  show ?case
  proof
    assume "str_includes (c # s) t"
    then consider "startsWith (c # s) t" | "str_includes s t" by auto
    then show "\<exists>p r. c # s = p @ t @ r"
    proof cases
      case 1
      then obtain r where "c # s = [] @ t @ r" by (auto simp: startsWith_iff)
      then show ?thesis by blast
    next
      case 2
      with Cons obtain p r where "s = p @ t @ r" by blast
      then have "c # s = (c # p) @ t @ r" by simp
      then show ?thesis by blast
    qed
  next
    assume "\<exists>p r. c # s = p @ t @ r"
    then obtain p r where pr: "c # s = p @ t @ r" by blast
    show "str_includes (c # s) t"
    proof (cases p)
      case Nil
      with pr have "startsWith (c # s) t" by (simp add: startsWith_iff)
      then show ?thesis by simp
    next
      case (Cons d p')
      with pr have "s = p' @ t @ r" by simp
      then have "str_includes s t" using Cons.IH by blast
      then show ?thesis by simp
    qed
  qed
qed

text \<open>
  Claim C8, as amended.  The extended-harmony strategy keeps the length of the
  progression and changes nothing of a chord but its extensions: root, quality, duration
  and position (and every other field) stay.  The extensions are chosen by the name of
  the quality: \<open>9, 13\<close> when the name contains \<open>maj7\<close>; else \<open>9, 11\<close> when it
  contains \<open>m7\<close> (so also for \<open>dim7\<close> and \<open>m7b5\<close>); else \<open>9, 11, 13\<close> when it
  contains \<open>7\<close> (so also for \<open>aug7\<close>); and none when the name does not contain \<open>7\<close>.
\<close>

theorem generateExtendedHarmony_frame:
  "length (generateExtendedHarmony cs) = length cs
   \<and> (\<forall>i < length cs.
        generateExtendedHarmony cs ! i
          = (cs ! i)\<lparr>extensions := extensions (generateExtendedHarmony cs ! i)\<rparr>
        \<and> chord_root (generateExtendedHarmony cs ! i) = chord_root (cs ! i)
        \<and> quality (generateExtendedHarmony cs ! i) = quality (cs ! i)
        \<and> duration (generateExtendedHarmony cs ! i) = duration (cs ! i)
        \<and> position (generateExtendedHarmony cs ! i) = position (cs ! i)
        \<and> extensions (generateExtendedHarmony cs ! i) =
            (if \<exists>p r. quality (cs ! i) = p @ ''maj7'' @ r then [''9'', ''13'']
             else if \<exists>p r. quality (cs ! i) = p @ ''m7'' @ r then [''9'', ''11'']
             else if \<exists>p r. quality (cs ! i) = p @ ''7'' @ r then [''9'', ''11'', ''13'']
             else []))"
proof -
  have ext: "getExtendedHarmony q =
      (if \<exists>p r. q = p @ ''maj7'' @ r then [''9'', ''13'']
       else if \<exists>p r. q = p @ ''m7'' @ r then [''9'', ''11'']
       else if \<exists>p r. q = p @ ''7'' @ r then [''9'', ''11'', ''13'']
       else [])" for q
    unfolding getExtendedHarmony_def str_includes_iff by (rule refl)
  show ?thesis by (simp add: generateExtendedHarmony_def ext)
qed

theorem generateExtendedHarmony_frame_witness:
  "map extensions (generateExtendedHarmony
      [chordOf ''C'' ''maj7'' ''I'' 4 0, chordOf ''D'' ''m7'' ''ii'' 4 4,
       chordOf ''G'' ''7'' ''V'' 4 8, chordOf ''C'' '''' ''I'' 4 12,
       chordOf ''B'' ''dim7'' ''vii'' 4 16, chordOf ''B'' ''m7b5'' ''vii'' 4 20,
       chordOf ''C'' ''aug7'' ''I'' 4 24, chordOf ''G'' ''9'' ''V'' 4 28])
     = [[''9'', ''13''], [''9'', ''11''], [''9'', ''11'', ''13''], [],
        [''9'', ''11''], [''9'', ''11''], [''9'', ''11'', ''13''], []]
   \<and> map duration (generateExtendedHarmony
      [chordOf ''C'' ''maj7'' ''I'' 4 0, chordOf ''D'' ''m7'' ''ii'' 4 4,
       chordOf ''G'' ''7'' ''V'' 4 8, chordOf ''C'' '''' ''I'' 4 12,
       chordOf ''B'' ''dim7'' ''vii'' 4 16, chordOf ''B'' ''m7b5'' ''vii'' 4 20,
       chordOf ''C'' ''aug7'' ''I'' 4 24, chordOf ''G'' ''9'' ''V'' 4 28])
     = [4, 4, 4, 4, 4, 4, 4, 4]"
  using generateExtendedHarmony_frame
    [of "[chordOf ''C'' ''maj7'' ''I'' 4 0, chordOf ''D'' ''m7'' ''ii'' 4 4,
       chordOf ''G'' ''7'' ''V'' 4 8, chordOf ''C'' '''' ''I'' 4 12,
       chordOf ''B'' ''dim7'' ''vii'' 4 16, chordOf ''B'' ''m7b5'' ''vii'' 4 20,
       chordOf ''C'' ''aug7'' ''I'' 4 24, chordOf ''G'' ''9'' ''V'' 4 28]"]
  by (simp add: generateExtendedHarmony_def getExtendedHarmony_def chordOf_def)

text \<open>
  Claim C8, as stated, fails.  The qualities \<open>dim7\<close> and \<open>aug7\<close> are neither a
  major-seventh, nor a minor-seventh, nor a plain dominant-seventh quality, so the
  stated rule gives them no extensions; the strategy gives \<open>dim7\<close> the extensions
  \<open>9, 11\<close> and \<open>aug7\<close> the extensions \<open>9, 11, 13\<close>.
\<close>

theorem generateExtendedHarmony_dim7_aug7:
  "map extensions (generateExtendedHarmony
      [chordOf ''B'' ''dim7'' ''vii'' 4 0, chordOf ''C'' ''aug7'' ''I'' 4 4])
     = [[''9'', ''11''], [''9'', ''11'', ''13'']]
   \<and> specExtendedHarmony ''dim7'' = [] \<and> specExtendedHarmony ''aug7'' = []"
  by (simp add: generateExtendedHarmony_def getExtendedHarmony_def chordOf_def
      specExtendedHarmony_def)

subsection \<open>The secondary-dominant strategy\<close>

lemma findIndex_none: "findIndex p xs = -1 \<longleftrightarrow> (\<forall>x \<in> set xs. \<not> p x)"
proof (induction xs)
  case Nil
  show ?case by simp
next
  case (Cons x xs)
  have ge: "\<And>ys. -1 \<le> findIndex p ys"
  proof -
    fix ys show "-1 \<le> findIndex p ys" by (induction ys) (auto simp: Let_def)
  qed
  from ge [of xs] have "findIndex p xs + 1 \<noteq> -1" by arith
  with Cons show ?case by (auto simp: Let_def)
qed

lemma findIndex_first:
  "i < length xs \<Longrightarrow> p (xs ! i) \<Longrightarrow> (\<forall>j < i. \<not> p (xs ! j)) \<Longrightarrow> findIndex p xs = int i"
proof (induction xs arbitrary: i)
  case Nil
  then show ?case by simp
next
  case (Cons x xs)
  show ?case
  proof (cases i)
    case 0
    with Cons.prems show ?thesis by simp
  next
    case (Suc k)
    with Cons.prems have nx: "\<not> p x" by auto
    from Suc Cons.prems have "k < length xs" "p (xs ! k)" by auto
    moreover from Suc Cons.prems have "\<forall>j < k. \<not> p (xs ! j)" by auto
    ultimately have "findIndex p xs = int k" by (rule Cons.IH)
    with nx Suc show ?thesis by (simp add: Let_def)
  qed
qed

lemma getRomanNumeral_array:
  "getScale key = ScaleArray sc \<Longrightarrow> \<exists>r. getRomanNumeral rt q key = Inr r"
  by (simp add: getRomanNumeral_def Let_def)

lemma getNashvilleNumber_array:
  "getScale key = ScaleArray sc \<Longrightarrow> \<exists>r. getNashvilleNumber rt key = Inr r"
  by (simp add: getNashvilleNumber_def Let_def)

lemma secondary_tables_agree:
  "map_of secondaryTargetMap f = Some target \<Longrightarrow> \<exists>entry. map_of SECONDARY_DOMINANTS f = Some entry"
  by (auto simp: secondaryTargetMap_def SECONDARY_DOMINANTS_def split: if_splits)

lemma secondary_no_target:
  "findTargetChordIndex cs f = -1 \<Longrightarrow> generateSecondaryDominantProgression minusHalf now key cs f = Inr cs"
  by (simp add: generateSecondaryDominantProgression_def)

lemma secondary_target:
  assumes idx: "findTargetChordIndex cs f = int i"
    and entry: "map_of SECONDARY_DOMINANTS f = Some entry"
    and sc: "getScale key = ScaleArray sc"
  shows "\<exists>new. generateSecondaryDominantProgression minusHalf now key cs f
            = Inr (take i cs @ new # drop i cs)
          \<and> chord_root new = chord_root entry \<and> quality new = quality entry
          \<and> chord_function new = f
          \<and> duration new = duration (cs ! i)
          \<and> position new = minusHalf (position (cs ! i))"
proof -
  from getRomanNumeral_array [OF sc] obtain rom
    where rom: "getRomanNumeral (chord_root entry) (quality entry) key = Inr rom" by blast
  from getNashvilleNumber_array [OF sc] obtain nash
    where nash: "getNashvilleNumber (chord_root entry) key = Inr nash" by blast
  from entry have own: "objGet SECONDARY_DOMINANTS f = Own entry" by (simp add: objGet_def)
  show ?thesis
    by (simp add: generateSecondaryDominantProgression_def idx own rom nash splice_insert_def)
qed

lemma secondary_target_no_array:
  assumes idx: "findTargetChordIndex cs f = int i"
    and entry: "map_of SECONDARY_DOMINANTS f = Some entry"
    and sc: "getScale key = NotAnArray"
  shows "generateSecondaryDominantProgression minusHalf now key cs f = Inl TypeError"
proof -
  from entry have own: "objGet SECONDARY_DOMINANTS f = Own entry" by (simp add: objGet_def)
  have rom: "getRomanNumeral (chord_root entry) (quality entry) key = Inl TypeError"
    by (simp add: getRomanNumeral_def sc)
  show ?thesis
    by (simp add: generateSecondaryDominantProgression_def idx own rom)
qed

text \<open>
  Claim C4, as amended.  For a key \<open>f\<close> of the secondary-dominant table with resolution
  target \<open>target\<close>: when no chord of the progression carries the function tag \<open>target\<close>,
  the strategy returns the progression unmodified.  Otherwise let \<open>i\<close> be the index of
  the first such chord.  When the scale lookup for the key yields a scale, the strategy
  inserts the table's dominant chord immediately before that chord; the inserted chord
  has the target's whole duration, and its position is the number that
  \<^verbatim>\<open>target.position - 0.5\<close> evaluates to; the target chord, with its duration and
  position, and every other chord stay as they were.  When the scale lookup yields no
  array (the key names a member of \<^verbatim>\<open>Object.prototype\<close>), the strategy raises a
  TypeError.
\<close>

theorem secondary_dominant_inserted_before_target:
  assumes tm: "map_of secondaryTargetMap f = Some target"
  shows "((\<forall>c \<in> set cs. chord_function c \<noteq> target)
            \<longrightarrow> generateSecondaryDominantProgression minusHalf now key cs f = Inr cs)
       \<and> (\<forall>i sc. i < length cs \<and> chord_function (cs ! i) = target
              \<and> (\<forall>j < i. chord_function (cs ! j) \<noteq> target)
              \<and> getScale key = ScaleArray sc
            \<longrightarrow> (\<exists>new. generateSecondaryDominantProgression minusHalf now key cs f
                        = Inr (take i cs @ new # drop i cs)
                  \<and> (\<exists>entry. map_of SECONDARY_DOMINANTS f = Some entry
                        \<and> chord_root new = chord_root entry \<and> quality new = quality entry)
                  \<and> chord_function new = f
                  \<and> duration new = duration (cs ! i)
                  \<and> position new = minusHalf (position (cs ! i))))
       \<and> (\<forall>i. i < length cs \<and> chord_function (cs ! i) = target
              \<and> (\<forall>j < i. chord_function (cs ! j) \<noteq> target)
              \<and> getScale key = NotAnArray
            \<longrightarrow> generateSecondaryDominantProgression minusHalf now key cs f = Inl TypeError)"
proof -
  from tm have own: "objGet secondaryTargetMap f = Own target" by (simp add: objGet_def)
  have idx: "findTargetChordIndex cs f = findIndex (\<lambda>chord. chord_function chord = target) cs"
    by (simp add: findTargetChordIndex_def own)
  from secondary_tables_agree [OF tm] obtain entry
    where e: "map_of SECONDARY_DOMINANTS f = Some entry" by blast
  have none: "(\<forall>c \<in> set cs. chord_function c \<noteq> target)
            \<longrightarrow> generateSecondaryDominantProgression minusHalf now key cs f = Inr cs"
    using secondary_no_target [of cs f minusHalf now key] by (simp add: idx findIndex_none)
  have found: "findTargetChordIndex cs f = int i"
    if "i < length cs" "chord_function (cs ! i) = target"
      "\<forall>j < i. chord_function (cs ! j) \<noteq> target" for i
    using that by (simp add: idx findIndex_first)
  have some: "\<exists>new. generateSecondaryDominantProgression minusHalf now key cs f
                        = Inr (take i cs @ new # drop i cs)
                  \<and> (\<exists>entry. map_of SECONDARY_DOMINANTS f = Some entry
                        \<and> chord_root new = chord_root entry \<and> quality new = quality entry)
                  \<and> chord_function new = f
                  \<and> duration new = duration (cs ! i)
                  \<and> position new = minusHalf (position (cs ! i))"
    if h: "i < length cs" "chord_function (cs ! i) = target"
      "\<forall>j < i. chord_function (cs ! j) \<noteq> target" "getScale key = ScaleArray sc" for i sc
    using secondary_target [OF found [OF h(1,2,3)] e h(4), of minusHalf now] e by blast
  have raise: "generateSecondaryDominantProgression minusHalf now key cs f = Inl TypeError"
    if h: "i < length cs" "chord_function (cs ! i) = target"
      "\<forall>j < i. chord_function (cs ! j) \<noteq> target" "getScale key = NotAnArray" for i
    using secondary_target_no_array [OF found [OF h(1,2,3)] e h(4)] .
  from none some raise show ?thesis by blast
qed

theorem secondary_dominant_inserted_before_target_witness:
  "map_of secondaryTargetMap ''V/V'' = Some ''V''
   \<and> (\<exists>new. generateSecondaryDominantProgression exactMinusHalf 17 ''C''
               [chordOf ''C'' '''' ''I'' 4 0, chordOf ''G'' '''' ''V'' 4 4] ''V/V''
             = Inr [chordOf ''C'' '''' ''I'' 4 0, new, chordOf ''G'' '''' ''V'' 4 4]
          \<and> duration new = 4 \<and> position new = 7 / 2)"
proof -
  let ?cs = "[chordOf ''C'' '''' ''I'' 4 0, chordOf ''G'' '''' ''V'' 4 4]"
  have tm: "map_of secondaryTargetMap ''V/V'' = Some ''V''"
    by (simp add: secondaryTargetMap_def)
  have sc: "getScale ''C'' = ScaleArray [''C'', ''D'', ''E'', ''F'', ''G'', ''A'', ''B'']"
    by (simp add: getScale_def majorScales_C)
  have pre: "1 < length ?cs \<and> chord_function (?cs ! 1) = ''V''
      \<and> (\<forall>j < 1. chord_function (?cs ! j) \<noteq> ''V'')
      \<and> getScale ''C'' = ScaleArray [''C'', ''D'', ''E'', ''F'', ''G'', ''A'', ''B'']"
    by (simp add: sc chordOf_def)
  from secondary_dominant_inserted_before_target [OF tm, of ?cs exactMinusHalf 17 "''C''"] pre
  obtain new where "generateSecondaryDominantProgression exactMinusHalf 17 ''C'' ?cs ''V/V''
        = Inr (take 1 ?cs @ new # drop 1 ?cs)"
      "duration new = duration (?cs ! 1)" "position new = exactMinusHalf (position (?cs ! 1))"
    by blast
  then have "generateSecondaryDominantProgression exactMinusHalf 17 ''C'' ?cs ''V/V''
        = Inr [chordOf ''C'' '''' ''I'' 4 0, new, chordOf ''G'' '''' ''V'' 4 4]
      \<and> duration new = 4 \<and> position new = 7 / 2"
    by (simp add: chordOf_def exactMinusHalf_def)
  with tm show ?thesis by blast
qed

text \<open>
  Claim C4, as stated, fails.  The target \<open>G\<close> lasts 4 beats and starts at 4; the
  inserted \<open>D7\<close> lasts 4 beats (not 2) and starts at 3.5, and the target still starts
  at 4 (not at 6).
\<close>

theorem secondary_dominant_full_duration:
  "generateSecondaryDominantProgression exactMinusHalf 17 ''C''
     [chordOf ''C'' '''' ''I'' 4 0, chordOf ''G'' '''' ''V'' 4 4] ''V/V''
   = Inr [chordOf ''C'' '''' ''I'' 4 0,
          \<lparr>chord_root = ''D'', quality = ''7'', chord_function = ''V/V'',
           chord_id = ''secondary_17'', extensions = [], roman = ''II7'', nashville = ''2'',
           duration = 4, position = 7 / 2\<rparr>,
          chordOf ''G'' '''' ''V'' 4 4]"
  by code_simp

subsection \<open>Length of the resulting progressions\<close>

lemma secondary_length:
  "generateSecondaryDominantProgression minusHalf now key cs f = Inr r \<Longrightarrow> length cs \<le> length r"
  by (auto simp: generateSecondaryDominantProgression_def splice_insert_def Let_def
      split: if_splits lookup.splits sum.splits)

lemma modal_length:
  "generateModalInterchangeProgression now key cs f = Inr r \<Longrightarrow> length r = length cs"
  by (auto simp: generateModalInterchangeProgression_def Let_def
      split: if_splits lookup.splits sum.splits)

lemma tritoneFrom_length:
  "tritoneFrom nowAt key i cs = Inr r \<Longrightarrow> length r = length cs"
  by (induction cs arbitrary: i r) (auto split: sum.splits)

lemma mapE_Inr:
  "mapE f xs = Inr ys \<Longrightarrow> \<forall>y \<in> set ys. \<exists>x \<in> set xs. f x = Inr y"
  by (induction xs arbitrary: ys) (auto split: sum.splits)

lemma mapE_total:
  "(\<forall>x \<in> set xs. \<exists>y. f x = Inr y) \<Longrightarrow> \<exists>ys. mapE f xs = Inr ys"
  by (induction xs) (auto split: sum.splits)

lemma secondarySuggestion_length:
  "secondarySuggestion minusHalf clk key cs e = Inr s \<Longrightarrow> length cs \<le> length (chords s)"
  by (auto simp: secondarySuggestion_def split: prod.splits sum.splits dest: secondary_length)

lemma modalSuggestion_length:
  "modalSuggestion clk key cs e = Inr s \<Longrightarrow> length cs \<le> length (chords s)"
  by (auto simp: modalSuggestion_def split: prod.splits sum.splits dest: modal_length)

lemma generateSuggestions_length:
  assumes "generateSuggestions minusHalf clk key cs = Inr ss" and "s \<in> set ss"
  shows "length cs \<le> length (chords s)"
proof -
  from assms(1) obtain secondary modal tritone where
    sec: "mapE (secondarySuggestion minusHalf clk key cs) SECONDARY_DOMINANTS = Inr secondary" and
    mod: "mapE (modalSuggestion clk key cs) MODAL_INTERCHANGE = Inr modal" and
    tri: "generateTritoneSubstitution (tritone_now clk) key cs = Inr tritone" and
    ss: "ss = secondary @ modal
          @ [tritoneSuggestion tritone, extendedSuggestion (generateExtendedHarmony cs)]"
    by (auto simp: generateSuggestions_def split: sum.splits)
  from assms(2) ss consider "s \<in> set secondary" | "s \<in> set modal"
    | "s = tritoneSuggestion tritone" | "s = extendedSuggestion (generateExtendedHarmony cs)"
    by auto
  then show ?thesis
  proof cases
    case 1
    with mapE_Inr [OF sec] show ?thesis by (blast dest: secondarySuggestion_length)
  next
    case 2
    with mapE_Inr [OF mod] show ?thesis by (blast dest: modalSuggestion_length)
  next
    case 3
    with tri show ?thesis
      by (simp add: tritoneSuggestion_def generateTritoneSubstitution_def tritoneFrom_length)
  next
    case 4
    then show ?thesis by (simp add: extendedSuggestion_def generateExtendedHarmony_def)
  qed
qed

lemma secondary_total:
  assumes sc: "getScale key = ScaleArray sc"
  shows "\<exists>r. generateSecondaryDominantProgression minusHalf now key cs f = Inr r"
proof (cases "findTargetChordIndex cs f = -1")
  case True
  then show ?thesis by (simp add: secondary_no_target)
next
  case False
  then obtain target where own: "objGet secondaryTargetMap f = Own target"
    by (auto simp: findTargetChordIndex_def split: lookup.splits)
  then have "map_of secondaryTargetMap f = Some target"
    by (auto simp: objGet_def split: option.splits if_splits)
  from secondary_tables_agree [OF this] obtain entry
    where "objGet SECONDARY_DOMINANTS f = Own entry" by (auto simp: objGet_def)
  with getRomanNumeral_array [OF sc, of "chord_root entry" "quality entry"]
    getNashvilleNumber_array [OF sc, of "chord_root entry"]
  show ?thesis by (auto simp: generateSecondaryDominantProgression_def Let_def)
qed

lemma modal_tables_agree:
  "map_of modalTargetMap f = Some target \<Longrightarrow> \<exists>entry. map_of MODAL_INTERCHANGE f = Some entry"
  by (auto simp: modalTargetMap_def MODAL_INTERCHANGE_def split: if_splits)

lemma modal_total:
  assumes sc: "getScale key = ScaleArray sc"
  shows "\<exists>r. generateModalInterchangeProgression now key cs f = Inr r"
proof (cases "findModalInterchangeTarget cs f = -1")
  case True
  then show ?thesis by (simp add: generateModalInterchangeProgression_def)
next
  case False
  then obtain target where own: "objGet modalTargetMap f = Own target"
    by (auto simp: findModalInterchangeTarget_def split: lookup.splits)
  then have "map_of modalTargetMap f = Some target"
    by (auto simp: objGet_def split: option.splits if_splits)
  from modal_tables_agree [OF this] obtain entry
    where "objGet MODAL_INTERCHANGE f = Own entry" by (auto simp: objGet_def)
  with getRomanNumeral_array [OF sc, of "chord_root entry" "quality entry"]
    getNashvilleNumber_array [OF sc, of "chord_root entry"]
  show ?thesis by (auto simp: generateModalInterchangeProgression_def Let_def)
qed

lemma tritoneChord_total:
  assumes sc: "getScale key = ScaleArray sc"
  shows "\<exists>c. tritoneChord now key chord = Inr c"
  using getRomanNumeral_array [OF sc, of "getTritoneSubstitution (chord_root chord)" "quality chord"]
    getNashvilleNumber_array [OF sc, of "getTritoneSubstitution (chord_root chord)"]
  by (auto simp: tritoneChord_def Let_def)

lemma tritoneFrom_total:
  assumes sc: "getScale key = ScaleArray sc"
  shows "\<exists>r. tritoneFrom nowAt key i cs = Inr r"
proof (induction cs arbitrary: i)
  case Nil
  show ?case by simp
next
  case (Cons c cs)
  from tritoneChord_total [OF sc, of "nowAt i" c] obtain c'
    where "tritoneChord (nowAt i) key c = Inr c'" by blast
  moreover from Cons [of "Suc i"] obtain r where "tritoneFrom nowAt key (Suc i) cs = Inr r" by blast
  ultimately show ?case by simp
qed

lemma generateSuggestions_total:
  assumes sc: "getScale key = ScaleArray sc"
  shows "\<exists>ss. generateSuggestions minusHalf clk key cs = Inr ss"
proof -
  have "\<forall>e \<in> set SECONDARY_DOMINANTS. \<exists>s. secondarySuggestion minusHalf clk key cs e = Inr s"
  proof
    fix e :: "string \<times> ChordEntry"
    obtain f c where e: "e = (f, c)" by (cases e)
    from secondary_total [OF sc, of minusHalf "secondary_now clk f" cs f]
    show "\<exists>s. secondarySuggestion minusHalf clk key cs e = Inr s"
      by (auto simp: secondarySuggestion_def e)
  qed
  from mapE_total [OF this] obtain secondary
    where sec: "mapE (secondarySuggestion minusHalf clk key cs) SECONDARY_DOMINANTS = Inr secondary" by blast
  have "\<forall>e \<in> set MODAL_INTERCHANGE. \<exists>s. modalSuggestion clk key cs e = Inr s"
  proof
    fix e :: "string \<times> ChordEntry"
    obtain f c where e: "e = (f, c)" by (cases e)
    from modal_total [OF sc, of "modal_now clk f" cs f]
    show "\<exists>s. modalSuggestion clk key cs e = Inr s"
      by (auto simp: modalSuggestion_def e)
  qed
  from mapE_total [OF this] obtain modal
    where mod: "mapE (modalSuggestion clk key cs) MODAL_INTERCHANGE = Inr modal" by blast
  from tritoneFrom_total [OF sc, of "tritone_now clk" 0 cs] obtain tritone
    where tri: "generateTritoneSubstitution (tritone_now clk) key cs = Inr tritone"
    by (auto simp: generateTritoneSubstitution_def)
  show ?thesis by (simp add: generateSuggestions_def sec mod tri)
qed

text \<open>
  Claim C9.  Every suggestion that the generator returns has a resulting progression at
  least as long as the current one, and the generator does return (it raises nothing)
  whenever the scale of the key is an array.  The same holds for each of the four
  strategies on its own: the secondary-dominant, modal-interchange and tritone
  strategies whenever they return, the extended-harmony strategy always.
\<close>

theorem suggestions_never_shorter:
  "(\<forall>sc. getScale key = ScaleArray sc \<longrightarrow> (\<exists>ss. generateSuggestions minusHalf clk key cs = Inr ss))
   \<and> (\<forall>ss. generateSuggestions minusHalf clk key cs = Inr ss
         \<longrightarrow> (\<forall>s \<in> set ss. length cs \<le> length (chords s)))
   \<and> (\<forall>r. generateSecondaryDominantProgression minusHalf now key cs f = Inr r \<longrightarrow> length cs \<le> length r)
   \<and> (\<forall>r. generateModalInterchangeProgression now key cs f = Inr r \<longrightarrow> length cs \<le> length r)
   \<and> (\<forall>r. generateTritoneSubstitution nowAt key cs = Inr r \<longrightarrow> length cs \<le> length r)
   \<and> length cs \<le> length (generateExtendedHarmony cs)"
proof -
  have "\<forall>r. generateTritoneSubstitution nowAt key cs = Inr r \<longrightarrow> length cs \<le> length r"
    by (auto simp: generateTritoneSubstitution_def dest: tritoneFrom_length)
  moreover have "\<forall>r. generateModalInterchangeProgression now key cs f = Inr r
      \<longrightarrow> length cs \<le> length r"
    by (auto dest: modal_length)
  moreover have "length cs \<le> length (generateExtendedHarmony cs)"
    by (simp add: generateExtendedHarmony_def)
  ultimately show ?thesis
    using generateSuggestions_total [of key _ minusHalf clk cs]
      generateSuggestions_length [of minusHalf clk key cs]
      secondary_length [of minusHalf now key cs f]
    by blast
qed

theorem suggestions_never_shorter_witness:
  "getScale ''C'' = ScaleArray [''C'', ''D'', ''E'', ''F'', ''G'', ''A'', ''B'']
   \<and> (\<exists>ss. generateSuggestions exactMinusHalf (constantClock 5) ''C''
              [chordOf ''C'' '''' ''I'' 4 0, chordOf ''G'' ''7'' ''V'' 4 4] = Inr ss
          \<and> (\<forall>s \<in> set ss. 2 \<le> length (chords s)))"
proof -
  let ?cs = "[chordOf ''C'' '''' ''I'' 4 0, chordOf ''G'' ''7'' ''V'' 4 4]"
  have sc: "getScale ''C'' = ScaleArray [''C'', ''D'', ''E'', ''F'', ''G'', ''A'', ''B'']"
    by (simp add: getScale_def majorScales_C)
  note inst = suggestions_never_shorter
      [of "''C''" exactMinusHalf "constantClock 5" ?cs 0 "''V/V''" "\<lambda>i. 0"]
  from inst sc obtain ss where ss: "generateSuggestions exactMinusHalf (constantClock 5) ''C'' ?cs = Inr ss"
    by blast
  with inst have "\<forall>s \<in> set ss. length ?cs \<le> length (chords s)" by blast
  then have "\<forall>s \<in> set ss. 2 \<le> length (chords s)" by (simp add: numeral_2_eq_2)
  with sc ss show ?thesis by blast
qed

subsection \<open>Determinism of the generator\<close>











lemma nonDiatonic_warnings_depend_on_repository:
  "checkNonDiatonicWarnings (projectsWithKey ''C'') ''p1'' [\<lparr>chord_root = ''Bb'', quality = ''''\<rparr>]
   \<noteq> checkNonDiatonicWarnings (projectsWithKey ''F'') ''p1'' [\<lparr>chord_root = ''Bb'', quality = ''''\<rparr>]"
  by code_simp




subsection \<open>Non-diatonic warnings\<close>

lemma getScale_array_not_inherited:
  assumes "getScale key = ScaleArray sc"
  shows "key \<notin> set objectPrototypeKeys"
proof (cases "map_of majorScales key")
  case None
  with assms show ?thesis by (auto simp: getScale_def objGet_def split: if_splits)
next
  case (Some v)
  then have "(key, v) \<in> set majorScales" by (rule map_of_SomeD)
  then show ?thesis by (auto simp: majorScales_def objectPrototypeKeys_def)
qed

lemma isModalInterchange_total:
  "key \<notin> set objectPrototypeKeys \<Longrightarrow> \<exists>b. isModalInterchange chord key = Inr b"
  by (auto simp: isModalInterchange_def objGet_def split: option.splits)

lemma chordWarnings_members:
  assumes "getScale key = ScaleArray sc"
  shows "\<exists>ws. chordWarnings key (ScaleArray sc) cs i c = Inr ws
      \<and> (\<forall>w. w \<in> set ws \<longleftrightarrow>
            (w = nonDiatonicWarning key c i \<and> chord_root c \<notin> set sc)
          \<or> (w = secondaryDominantNote c i \<and> isSecondaryDominant c cs i)
          \<or> (w = modalInterchangeNote c i \<and> isModalInterchange c key = Inr True))"
proof -
  from isModalInterchange_total [OF getScale_array_not_inherited [OF assms], of c]
  obtain b where "isModalInterchange c key = Inr b" by blast
  then show ?thesis by (auto simp: chordWarnings_def Let_def)
qed

lemma forEachChord_members:
  assumes f: "\<And>j c. \<exists>ws. f j c = Inr ws \<and> (\<forall>w. w \<in> set ws \<longleftrightarrow> P j c w)"
  shows "\<exists>r. forEachChord f i xs acc = Inr r
      \<and> (\<forall>w. w \<in> set r \<longleftrightarrow> w \<in> set acc \<or> (\<exists>j < length xs. P (i + j) (xs ! j) w))"
proof (induction xs arbitrary: i acc)
  case Nil
  show ?case by simp
next
  case (Cons x xs)
  from f [of i x] obtain ws where ws: "f i x = Inr ws" "\<forall>w. w \<in> set ws \<longleftrightarrow> P i x w" by blast
  from Cons [of "Suc i" "acc @ ws"] obtain r where
    r: "forEachChord f (Suc i) xs (acc @ ws) = Inr r"
      "\<forall>w. w \<in> set r \<longleftrightarrow> w \<in> set (acc @ ws) \<or> (\<exists>j < length xs. P (Suc i + j) (xs ! j) w)"
    by blast
  have "(\<exists>j < length (x # xs). P (i + j) ((x # xs) ! j) w)
      \<longleftrightarrow> P i x w \<or> (\<exists>j < length xs. P (Suc i + j) (xs ! j) w)" for w
  proof
    assume "\<exists>j < length (x # xs). P (i + j) ((x # xs) ! j) w"
    then obtain j where j: "j < length (x # xs)" "P (i + j) ((x # xs) ! j) w" by blast
    show "P i x w \<or> (\<exists>j < length xs. P (Suc i + j) (xs ! j) w)"
    proof (cases j)
      case 0
      with j show ?thesis by simp
    next
      case (Suc k)
      with j have "k < length xs \<and> P (Suc i + k) (xs ! k) w" by simp
      then show ?thesis by blast
    qed
  next
    assume "P i x w \<or> (\<exists>j < length xs. P (Suc i + j) (xs ! j) w)"
    then show "\<exists>j < length (x # xs). P (i + j) ((x # xs) ! j) w"
    proof
      assume "P i x w"
      then have "0 < length (x # xs) \<and> P (i + 0) ((x # xs) ! 0) w" by simp
      then show ?thesis by blast
    next
      assume "\<exists>j < length xs. P (Suc i + j) (xs ! j) w"
      then obtain j where "j < length xs" "P (Suc i + j) (xs ! j) w" by blast
      then have "Suc j < length (x # xs) \<and> P (i + Suc j) ((x # xs) ! Suc j) w" by simp
      then show ?thesis by blast
    qed
  qed
  with ws r show ?case by simp
qed

lemma checkNonDiatonicWarnings_members:
  assumes "projectRepository projectId = Some project" and "project_key project = Some key"
    and "key \<noteq> []" and sc: "getScale key = ScaleArray sc"
  shows "\<exists>ws. checkNonDiatonicWarnings projectRepository projectId cs = Inr ws
      \<and> (\<forall>w. w \<in> set ws \<longleftrightarrow> (\<exists>j < length cs.
            (w = nonDiatonicWarning key (cs ! j) j \<and> chord_root (cs ! j) \<notin> set sc)
          \<or> (w = secondaryDominantNote (cs ! j) j \<and> isSecondaryDominant (cs ! j) cs j)
          \<or> (w = modalInterchangeNote (cs ! j) j \<and> isModalInterchange (cs ! j) key = Inr True)))"
proof -
  have eq: "checkNonDiatonicWarnings projectRepository projectId cs
      = forEachChord (chordWarnings key (ScaleArray sc) cs) 0 cs []"
    using assms by (simp add: checkNonDiatonicWarnings_def)
  from forEachChord_members [of "chordWarnings key (ScaleArray sc) cs"
      "\<lambda>j c w. (w = nonDiatonicWarning key c j \<and> chord_root c \<notin> set sc)
          \<or> (w = secondaryDominantNote c j \<and> isSecondaryDominant c cs j)
          \<or> (w = modalInterchangeNote c j \<and> isModalInterchange c key = Inr True)" 0 cs "[]",
      OF chordWarnings_members [OF sc]]
  show ?thesis unfolding eq by simp
qed

lemma warning_fields [simp]:
  "warning_position (nonDiatonicWarning key c i) = i"
  "warning_position (secondaryDominantNote c i) = i"
  "warning_position (modalInterchangeNote c i) = i"
  "severity (nonDiatonicWarning key c i) = Medium"
  "severity (secondaryDominantNote c i) = Low"
  "severity (modalInterchangeNote c i) = Low"
  by (simp_all add: nonDiatonicWarning_def secondaryDominantNote_def modalInterchangeNote_def)

text \<open>
  Claim C2, as amended.  For a project with a non-empty key whose scale is an array,
  the check returns a list of warnings in which, for every chord: a medium-severity
  warning is present exactly when the chord's root is outside the scale, whether or not
  the chord is recognised as a secondary dominant or as a modal interchange; a
  low-severity note is present exactly when the chord is recognised as a secondary
  dominant resolving to the next chord or as a modal-interchange borrowing, beside the
  medium warning and not instead of it.  For \<open>D7\<close> immediately followed by \<open>G\<close> in key
  \<open>C\<close>, \<open>D7\<close> gets no medium warning (\<open>D\<close> is in the scale of \<open>C\<close>) and gets the
  secondary-dominant note.
\<close>

theorem nonDiatonic_warning_not_suppressed:
  assumes repo: "projectRepository projectId = Some project"
    and key: "project_key project = Some key" and ne: "key \<noteq> []"
    and sc: "getScale key = ScaleArray sc"
  shows "\<exists>ws. checkNonDiatonicWarnings projectRepository projectId cs = Inr ws
      \<and> (\<forall>i < length cs.
           ((\<exists>w \<in> set ws. warning_position w = i \<and> severity w = Medium)
              \<longleftrightarrow> chord_root (cs ! i) \<notin> set sc)
         \<and> ((\<exists>w \<in> set ws. warning_position w = i \<and> severity w = Low)
              \<longleftrightarrow> isSecondaryDominant (cs ! i) cs i
                  \<or> isModalInterchange (cs ! i) key = Inr True)
         \<and> (key = ''C'' \<and> chord_root (cs ! i) = ''D'' \<and> quality (cs ! i) = ''7''
              \<and> Suc i < length cs \<and> chord_root (cs ! Suc i) = ''G''
              \<longrightarrow> \<not> (\<exists>w \<in> set ws. warning_position w = i \<and> severity w = Medium)
                  \<and> secondaryDominantNote (cs ! i) i \<in> set ws))"
proof -
  from checkNonDiatonicWarnings_members
      [of projectRepository projectId project key sc cs, OF repo key ne sc] obtain ws where
    ws: "checkNonDiatonicWarnings projectRepository projectId cs = Inr ws" and
    mem: "\<And>w. w \<in> set ws \<longleftrightarrow> (\<exists>j < length cs.
            (w = nonDiatonicWarning key (cs ! j) j \<and> chord_root (cs ! j) \<notin> set sc)
          \<or> (w = secondaryDominantNote (cs ! j) j \<and> isSecondaryDominant (cs ! j) cs j)
          \<or> (w = modalInterchangeNote (cs ! j) j \<and> isModalInterchange (cs ! j) key = Inr True))"
    by blast
  have medium: "(\<exists>w \<in> set ws. warning_position w = i \<and> severity w = Medium)
              \<longleftrightarrow> chord_root (cs ! i) \<notin> set sc" if "i < length cs" for i
  proof
    assume "\<exists>w \<in> set ws. warning_position w = i \<and> severity w = Medium"
    then obtain w where w: "w \<in> set ws" "warning_position w = i" "severity w = Medium" by blast
    from w(1) mem obtain j where "j < length cs"
      "(w = nonDiatonicWarning key (cs ! j) j \<and> chord_root (cs ! j) \<notin> set sc)
          \<or> (w = secondaryDominantNote (cs ! j) j \<and> isSecondaryDominant (cs ! j) cs j)
          \<or> (w = modalInterchangeNote (cs ! j) j \<and> isModalInterchange (cs ! j) key = Inr True)"
      by blast
    with w(2,3) show "chord_root (cs ! i) \<notin> set sc" by auto
  next
    assume "chord_root (cs ! i) \<notin> set sc"
    with that mem have "nonDiatonicWarning key (cs ! i) i \<in> set ws" by blast
    then show "\<exists>w \<in> set ws. warning_position w = i \<and> severity w = Medium"
      by (rule bexI [rotated]) simp
  qed
  have low: "(\<exists>w \<in> set ws. warning_position w = i \<and> severity w = Low)
              \<longleftrightarrow> isSecondaryDominant (cs ! i) cs i
                  \<or> isModalInterchange (cs ! i) key = Inr True" if "i < length cs" for i
  proof
    assume "\<exists>w \<in> set ws. warning_position w = i \<and> severity w = Low"
    then obtain w where w: "w \<in> set ws" "warning_position w = i" "severity w = Low" by blast
    from w(1) mem obtain j where "j < length cs"
      "(w = nonDiatonicWarning key (cs ! j) j \<and> chord_root (cs ! j) \<notin> set sc)
          \<or> (w = secondaryDominantNote (cs ! j) j \<and> isSecondaryDominant (cs ! j) cs j)
          \<or> (w = modalInterchangeNote (cs ! j) j \<and> isModalInterchange (cs ! j) key = Inr True)"
      by blast
    with w(2,3) show "isSecondaryDominant (cs ! i) cs i
                  \<or> isModalInterchange (cs ! i) key = Inr True" by auto
  next
    assume "isSecondaryDominant (cs ! i) cs i \<or> isModalInterchange (cs ! i) key = Inr True"
    then show "\<exists>w \<in> set ws. warning_position w = i \<and> severity w = Low"
    proof
      assume "isSecondaryDominant (cs ! i) cs i"
      with that mem have "secondaryDominantNote (cs ! i) i \<in> set ws" by blast
      then show ?thesis by (rule bexI [rotated]) simp
    next
      assume "isModalInterchange (cs ! i) key = Inr True"
      with that mem have "modalInterchangeNote (cs ! i) i \<in> set ws" by blast
      then show ?thesis by (rule bexI [rotated]) simp
    qed
  qed
  have d7: "\<not> (\<exists>w \<in> set ws. warning_position w = i \<and> severity w = Medium)
                  \<and> secondaryDominantNote (cs ! i) i \<in> set ws"
    if "i < length cs" and h: "key = ''C''" "chord_root (cs ! i) = ''D''" "quality (cs ! i) = ''7''"
      "Suc i < length cs" "chord_root (cs ! Suc i) = ''G''" for i
  proof -
    from sc h(1) have "sc = [''C'', ''D'', ''E'', ''F'', ''G'', ''A'', ''B'']"
      by (simp add: getScale_def majorScales_C)
    with h(2) have "chord_root (cs ! i) \<in> set sc" by simp
    with medium [OF that(1)] have no: "\<not> (\<exists>w \<in> set ws. warning_position w = i \<and> severity w = Medium)"
      by simp
    from h have "isSecondaryDominant (cs ! i) cs i"
      by (simp add: isSecondaryDominant_def getSecondaryDominantResolution_def objGet_def
          resolutions_def)
    with that(1) mem have "secondaryDominantNote (cs ! i) i \<in> set ws" by blast
    with no show ?thesis by simp
  qed
  from ws medium low d7 show ?thesis by blast
qed

theorem nonDiatonic_warning_not_suppressed_witness:
  "projectsWithKey ''C'' ''p1'' = Some \<lparr>project_key = Some ''C''\<rparr>
   \<and> getScale ''C'' = ScaleArray [''C'', ''D'', ''E'', ''F'', ''G'', ''A'', ''B'']
   \<and> (\<exists>ws. checkNonDiatonicWarnings (projectsWithKey ''C'') ''p1''
               [\<lparr>chord_root = ''D'', quality = ''7''\<rparr>, \<lparr>chord_root = ''G'', quality = ''''\<rparr>]
             = Inr ws
          \<and> \<not> (\<exists>w \<in> set ws. warning_position w = 0 \<and> severity w = Medium)
          \<and> secondaryDominantNote \<lparr>chord_root = ''D'', quality = ''7''\<rparr> 0 \<in> set ws)"
proof -
  let ?cs = "[\<lparr>chord_root = ''D'', quality = ''7''\<rparr>, \<lparr>chord_root = ''G'', quality = ''''\<rparr>]"
  have repo: "projectsWithKey ''C'' ''p1'' = Some \<lparr>project_key = Some ''C''\<rparr>"
    by (simp add: projectsWithKey_def)
  have key: "project_key \<lparr>project_key = Some ''C''\<rparr> = Some ''C''" by simp
  have ne: "''C'' \<noteq> []" by simp
  have sc: "getScale ''C'' = ScaleArray [''C'', ''D'', ''E'', ''F'', ''G'', ''A'', ''B'']"
    by (simp add: getScale_def majorScales_C)
  from nonDiatonic_warning_not_suppressed
    [of "projectsWithKey ''C''" "''p1''" "\<lparr>project_key = Some ''C''\<rparr>" "''C''"
        "[''C'', ''D'', ''E'', ''F'', ''G'', ''A'', ''B'']" ?cs, OF repo key ne sc]
  obtain ws where ws: "checkNonDiatonicWarnings (projectsWithKey ''C'') ''p1'' ?cs = Inr ws"
    and part: "\<forall>i < length ?cs.
         (''C'' = ''C'' \<and> chord_root (?cs ! i) = ''D'' \<and> quality (?cs ! i) = ''7''
              \<and> Suc i < length ?cs \<and> chord_root (?cs ! Suc i) = ''G''
              \<longrightarrow> \<not> (\<exists>w \<in> set ws. warning_position w = i \<and> severity w = Medium)
                  \<and> secondaryDominantNote (?cs ! i) i \<in> set ws)"
    by blast
  from part have "\<not> (\<exists>w \<in> set ws. warning_position w = 0 \<and> severity w = Medium)
      \<and> secondaryDominantNote \<lparr>chord_root = ''D'', quality = ''7''\<rparr> 0 \<in> set ws"
    by simp
  with repo sc ws show ?thesis by blast
qed

text \<open>
  Claim C2, as stated, fails.  In key \<open>Ab\<close> the root \<open>D\<close> is outside the scale, and
  \<open>D7\<close> followed by \<open>G\<close> is recognised as a secondary dominant: the check returns the
  medium warning and the low note for \<open>D7\<close>, both at position 0.
\<close>

theorem nonDiatonic_warning_beside_note:
  "checkNonDiatonicWarnings (projectsWithKey ''Ab'') ''p1''
     [\<lparr>chord_root = ''D'', quality = ''7''\<rparr>, \<lparr>chord_root = ''G'', quality = ''''\<rparr>]
   = Inr [nonDiatonicWarning ''Ab'' \<lparr>chord_root = ''D'', quality = ''7''\<rparr> 0,
          secondaryDominantNote \<lparr>chord_root = ''D'', quality = ''7''\<rparr> 0]"
  by code_simp

subsection \<open>Rhyme patterns of short final words\<close>

lemma getRhymePattern_short: "length w \<le> 2 \<Longrightarrow> getRhymePattern w = w"
  by (simp add: getRhymePattern_def)

lemma pushWord_distinct:
  "distinct (map pattern gs) \<Longrightarrow>
   pushWord p w gs = map (\<lambda>g. if pattern g = p then g\<lparr>words := words g @ [w]\<rparr> else g) gs"
proof (induction gs)
  case Nil
  show ?case by simp
next
  case (Cons g gs)
  show ?case
  proof (cases "pattern g = p")
    case True
    from Cons.prems True have "p \<notin> pattern ` set gs" by simp
    then have "\<forall>h \<in> set gs. pattern h \<noteq> p" by blast
    then have "map (\<lambda>g. if pattern g = p then g\<lparr>words := words g @ [w]\<rparr> else g) gs = gs"
      by (simp add: map_idI)
    with True show ?thesis by simp
  next
    case False
    with Cons show ?thesis by simp
  qed
qed

lemma rhyme_invariant:
  "snd (foldl rhymeStep ([], []) ws) = map pattern (fst (foldl rhymeStep ([], []) ws))
   \<and> distinct (snd (foldl rhymeStep ([], []) ws))
   \<and> set (snd (foldl rhymeStep ([], []) ws)) = getRhymePattern ` set ws
   \<and> (\<forall>g \<in> set (fst (foldl rhymeStep ([], []) ws)).
        words g = filter (\<lambda>w. getRhymePattern w = pattern g) ws)"
proof (induction ws rule: rev_induct)
  case Nil
  show ?case by simp
next
  case (snoc w ws)
  obtain gs ps where st: "foldl rhymeStep ([], []) ws = (gs, ps)"
    by (cases "foldl rhymeStep ([], []) ws")
  have ps: "ps = map pattern gs" and d: "distinct ps"
    and cover: "set ps = getRhymePattern ` set ws"
    and wds: "\<forall>g \<in> set gs. words g = filter (\<lambda>v. getRhymePattern v = pattern g) ws"
    using snoc unfolding st snd_conv fst_conv by blast+
  show ?case
  proof (cases "getRhymePattern w \<in> set ps")
    case False
    then have step: "foldl rhymeStep ([], []) (ws @ [w])
        = (gs @ [\<lparr>pattern = getRhymePattern w, words = [w], strength = Perfect\<rparr>],
           ps @ [getRhymePattern w])"
      by (simp add: st rhymeStep_def Let_def)
    from False cover have "getRhymePattern w \<notin> getRhymePattern ` set ws" by simp
    then have "\<forall>v \<in> set ws. getRhymePattern v \<noteq> getRhymePattern w" by (metis imageI)
    then have none: "filter (\<lambda>v. getRhymePattern v = getRhymePattern w) ws = []"
      by (simp add: filter_empty_conv)
    from False ps have "getRhymePattern w \<notin> pattern ` set gs" by simp
    then have other: "\<forall>g \<in> set gs. pattern g \<noteq> getRhymePattern w" by (metis imageI)
    show ?thesis unfolding step using ps d cover wds False none other by auto
  next
    case True
    from ps d have dg: "distinct (map pattern gs)" by simp
    from True have step: "foldl rhymeStep ([], []) (ws @ [w])
        = (map (\<lambda>g. if pattern g = getRhymePattern w then g\<lparr>words := words g @ [w]\<rparr> else g) gs,
           ps)"
      by (simp add: st rhymeStep_def Let_def pushWord_distinct [OF dg])
    have pat: "map pattern (map (\<lambda>g. if pattern g = getRhymePattern w
                 then g\<lparr>words := words g @ [w]\<rparr> else g) gs) = map pattern gs"
      by (induction gs) auto
    show ?thesis unfolding step using ps d cover wds True pat by auto
  qed
qed

lemma rhymeGroups_words:
  "g \<in> set (rhymeGroups ws) \<Longrightarrow> words g = filter (\<lambda>w. getRhymePattern w = pattern g) ws"
  using rhyme_invariant [of ws] by (simp add: rhymeGroups_def)

lemma rhymeGroups_patterns:
  "pattern ` set (rhymeGroups ws) = getRhymePattern ` set ws"
proof -
  from rhyme_invariant [of ws]
  have "set (map pattern (rhymeGroups ws)) = getRhymePattern ` set ws"
    unfolding rhymeGroups_def by metis
  then show ?thesis by simp
qed

lemma filter_two:
  assumes "i < length xs" "j < length xs" "i < j" "P (xs ! i)" "P (xs ! j)"
  shows "1 < length (filter P xs)"
proof -
  have split: "xs = take j xs @ xs ! j # drop (Suc j) xs"
    using assms(2) by (rule id_take_nth_drop)
  from assms have "xs ! i \<in> set (take j xs)"
    by (metis in_set_conv_nth length_take min.absorb2 less_imp_le nth_take)
  with assms(4) have "filter P (take j xs) \<noteq> []" by (auto simp: filter_empty_conv)
  then have "0 < length (filter P (take j xs))" by simp
  moreover have "length (filter P xs)
      = length (filter P (take j xs)) + length (filter P (xs ! j # drop (Suc j) xs))"
    by (subst split) simp
  ultimately show ?thesis using assms(5) by simp
qed

lemma filter_two_sym:
  assumes "i < length xs" "j < length xs" "i \<noteq> j" "P (xs ! i)" "P (xs ! j)"
  shows "1 < length (filter P xs)"
proof (cases "i < j")
  case True
  with assms show ?thesis by (blast intro: filter_two)
next
  case False
  with assms(3) have "j < i" by simp
  with assms show ?thesis by (blast intro: filter_two)
qed

text \<open>
  Claim C10.  For a line whose final word, lower-cased and stripped of non-word
  characters, has at most two characters, the rhyme pattern is the whole word, and the
  pattern of any returned group that holds the word is the word.  Two different lines
  with such final words are in one returned rhyme group exactly when the two words are
  equal.
\<close>

theorem short_final_words_rhyme_by_equality:
  assumes i: "i < length (endWords text)" and j: "j < length (endWords text)"
    and ij: "i \<noteq> j"
    and si: "length (endWords text ! i) \<le> 2" and sj: "length (endWords text ! j) \<le> 2"
  shows "getRhymePattern (endWords text ! i) = endWords text ! i
    \<and> ((\<exists>g \<in> set (analyzeRhymes text).
           endWords text ! i \<in> set (words g) \<and> endWords text ! j \<in> set (words g))
        \<longleftrightarrow> endWords text ! i = endWords text ! j)
    \<and> (\<forall>g \<in> set (analyzeRhymes text).
           endWords text ! i \<in> set (words g) \<longrightarrow> pattern g = endWords text ! i)"
proof -
  let ?ws = "endWords text"
  have pi: "getRhymePattern (?ws ! i) = ?ws ! i" using si by (rule getRhymePattern_short)
  have pj: "getRhymePattern (?ws ! j) = ?ws ! j" using sj by (rule getRhymePattern_short)
  have key: "pattern g = ?ws ! i" if "g \<in> set (analyzeRhymes text)" "?ws ! i \<in> set (words g)" for g
  proof -
    from that(1) have "g \<in> set (rhymeGroups ?ws)" by (simp add: analyzeRhymes_def)
    from rhymeGroups_words [OF this] that(2) pi show ?thesis by simp
  qed
  have keyj: "pattern g = ?ws ! j" if "g \<in> set (analyzeRhymes text)" "?ws ! j \<in> set (words g)" for g
  proof -
    from that(1) have "g \<in> set (rhymeGroups ?ws)" by (simp add: analyzeRhymes_def)
    from rhymeGroups_words [OF this] that(2) pj show ?thesis by simp
  qed
  have "(\<exists>g \<in> set (analyzeRhymes text). ?ws ! i \<in> set (words g) \<and> ?ws ! j \<in> set (words g))
        \<longleftrightarrow> ?ws ! i = ?ws ! j"
  proof
    assume "\<exists>g \<in> set (analyzeRhymes text). ?ws ! i \<in> set (words g) \<and> ?ws ! j \<in> set (words g)"
    then obtain g where "g \<in> set (analyzeRhymes text)" "?ws ! i \<in> set (words g)"
      "?ws ! j \<in> set (words g)" by blast
    with key [of g] keyj [of g] show "?ws ! i = ?ws ! j" by simp
  next
    assume eq: "?ws ! i = ?ws ! j"
    from i have "getRhymePattern (?ws ! i) \<in> getRhymePattern ` set ?ws" by simp
    then have "getRhymePattern (?ws ! i) \<in> pattern ` set (rhymeGroups ?ws)"
      by (simp only: rhymeGroups_patterns)
    then obtain g where
      g: "g \<in> set (rhymeGroups ?ws)" "pattern g = getRhymePattern (?ws ! i)"
      by (metis imageE)
    from rhymeGroups_words [OF g(1)]
    have w: "words g = filter (\<lambda>w. getRhymePattern w = pattern g) ?ws" .
    from i g(2) w have mi: "?ws ! i \<in> set (words g)" by simp
    from j g(2) w eq have mj: "?ws ! j \<in> set (words g)" by simp
    from eq g(2) have "getRhymePattern (?ws ! i) = pattern g" "getRhymePattern (?ws ! j) = pattern g"
      by simp_all
    with filter_two_sym [OF i j ij, of "\<lambda>w. getRhymePattern w = pattern g"] w
    have "1 < length (words g)" by simp
    with g(1) have "g \<in> set (analyzeRhymes text)" by (simp add: analyzeRhymes_def)
    with mi mj show "\<exists>g \<in> set (analyzeRhymes text).
        ?ws ! i \<in> set (words g) \<and> ?ws ! j \<in> set (words g)" by blast
  qed
  with pi key show ?thesis by blast
qed

theorem short_final_words_rhyme_by_equality_witness:
  "endWords ''go to\<newline>me too\<newline>it is to!\<newline>cat'' = [''to'', ''too'', ''to'', ''cat'']
   \<and> getRhymePattern ''to'' = ''to''
   \<and> (\<exists>g \<in> set (analyzeRhymes ''go to\<newline>me too\<newline>it is to!\<newline>cat'').
         ''to'' \<in> set (words g))"
proof -
  let ?text = "''go to\<newline>me too\<newline>it is to!\<newline>cat''"
  have ew: "endWords ?text = [''to'', ''too'', ''to'', ''cat'']" by code_simp
  have "0 < length (endWords ?text)" "2 < length (endWords ?text)" "(0::nat) \<noteq> 2"
    "length (endWords ?text ! 0) \<le> 2" "length (endWords ?text ! 2) \<le> 2"
    by (simp_all add: ew)
  from short_final_words_rhyme_by_equality [OF this]
  have "getRhymePattern ''to'' = ''to''
    \<and> (\<exists>g \<in> set (analyzeRhymes ?text). ''to'' \<in> set (words g))"
    by (simp add: ew)
  with ew show ?thesis by blast
qed

end
